theory Spec2Isabelle
  imports Main "HOL-Library.Sublist" "HOL-Library.AList"
begin

section \<open>Values handled by the extension\<close>

text \<open>
  The extension (\<^verbatim>\<open>src/extension.ts\<close>) is glue between the Node runtime (\<^verbatim>\<open>fs\<close>,
  \<^verbatim>\<open>path\<close>, \<^verbatim>\<open>JSON\<close>) and the editor host. A value produced by \<^verbatim>\<open>JSON.parse\<close> is a
  \<open>json\<close>; the type of numbers is left open (\<open>'n\<close>), since the code never computes with
  one. An object is the list of its own properties in enumeration order; the objects that
  \<^verbatim>\<open>JSON.parse\<close> returns have pairwise distinct keys.
\<close>

datatype 'n json =
    JNull
  | JBool bool
  | JNum 'n
  | JStr string
  | JArr "'n json list"
  | JObj "(string \<times> 'n json) list"

text \<open>Exceptions that the code can meet: a \<^verbatim>\<open>TypeError\<close> of the language, or a failed
  file-system call.\<close>

datatype error = TypeError | IOError

text \<open>What is found at a path: a file with its content, or a directory with the names
  that \<^verbatim>\<open>readdirSync\<close> lists, in the order in which it lists them.\<close>

datatype node = File string | Dir "string list"

text \<open>Everything the extension shows, logs or asks of the host, in order.\<close>

datatype event =
    ConsoleWarn string
  | ConsoleError
  | ShowErrorMessage string
  | ShowWarningMessage string
  | ShowInformationMessage string
  | ExecuteTask string
  | ExecuteCommand string

text \<open>\<^verbatim>\<open>vscode.Diagnostic\<close>: the code of a diagnostic is absent, a string, a number, or an
  object whose \<^verbatim>\<open>value\<close> is a string or a number.\<close>

datatype severity = Error | Warning | Information | Hint

datatype 'n code_value = ValueString string | ValueNumber 'n

datatype 'n diag_code =
    CodeUndefined
  | CodeString string
  | CodeNumber 'n
  | CodeObject "'n code_value"

record 'n diagnostic =
  severity :: severity
  code :: "'n diag_code"

text \<open>The result of path resolution (\<^verbatim>\<open>{ projectRoot, engineRoot, projectName }\<close>).\<close>

record paths =
  projectRoot :: string
  engineRoot :: string
  projectName :: string

text \<open>The saved document handed to the save watcher.\<close>

record textDocument =
  fileName :: string
  uri :: string

text \<open>
  The mutable world: the file system and the trace of events. \<open>read_denied\<close> and
  \<open>write_denied\<close> stand for every reason for which a read or a write at a path fails
  although the path is of the right kind (permissions, a missing parent directory, a full
  disk).
\<close>

record world =
  nodes :: "string \<Rightarrow> node option"
  read_denied :: "string \<Rightarrow> bool"
  write_denied :: "string \<Rightarrow> bool"
  events :: "event list"

text \<open>
  What the runtime and the editor provide and the code only calls:
  \<^item> \<open>json_parse\<close> is \<^verbatim>\<open>JSON.parse\<close> (\<open>None\<close> when it throws), \<open>json_stringify\<close> is
    \<^verbatim>\<open>JSON.stringify(v, null, 4)\<close>;
  \<^item> \<open>number_truthy\<close> tells whether a number is truthy, \<open>number_to_string\<close> is
    \<^verbatim>\<open>String(n)\<close>;
  \<^item> \<open>path_join\<close> is \<^verbatim>\<open>path.join\<close>, \<open>asAbsolutePath\<close> is the method of the extension
    context;
  \<^item> \<open>workspaceFolders\<close> holds the \<^verbatim>\<open>fsPath\<close> of each open folder (\<open>None\<close> when
    undefined), \<open>config_get\<close> the truthiness of a key of \<^verbatim>\<open>ueClangdHelper\<close>;
  \<^item> \<open>fetchTasks\<close> holds the names of the tasks the host knows, in its order;
  \<^item> \<open>getDiagnostics\<close> is \<^verbatim>\<open>vscode.languages.getDiagnostics\<close>;
  \<^item> \<open>command_resolves\<close> tells whether \<^verbatim>\<open>executeCommand\<close> of a command resolves.
\<close>

record 'n host =
  json_parse :: "string \<Rightarrow> 'n json option"
  json_stringify :: "'n json \<Rightarrow> string"
  number_truthy :: "'n \<Rightarrow> bool"
  number_to_string :: "'n \<Rightarrow> string"
  path_join :: "string list \<Rightarrow> string"
  asAbsolutePath :: "string \<Rightarrow> string"
  workspaceFolders :: "string list option"
  config_get :: "string \<Rightarrow> bool"
  fetchTasks :: "string list"
  getDiagnostics :: "string \<Rightarrow> 'n diagnostic list"
  command_resolves :: "string \<Rightarrow> bool"

section \<open>Constants\<close>

definition TASK_GENERATE :: string where
  "TASK_GENERATE = ''Generate Clang CompileCommands''"

definition TASK_UHT :: string where
  "TASK_UHT = ''Refresh UHT Generated Headers''"

definition TASK_COMPOUND :: string where
  "TASK_COMPOUND = ''Fix Header False Errors''"

section \<open>The file system of Node\<close>

text \<open>No call of \<^verbatim>\<open>fs\<close> finds anything at the empty path (\<^verbatim>\<open>ENOENT\<close>).\<close>

definition node_at :: "world \<Rightarrow> string \<Rightarrow> node option" where
  "node_at w p = (if p = [] then None else nodes w p)"

definition existsSync :: "world \<Rightarrow> string \<Rightarrow> bool" where
  "existsSync w p = (node_at w p \<noteq> None)"

definition statSync :: "world \<Rightarrow> string \<Rightarrow> error + node" where
  "statSync w p = (case node_at w p of None \<Rightarrow> Inl IOError | Some n \<Rightarrow> Inr n)"

fun isDirectory :: "node \<Rightarrow> bool" where
  "isDirectory (Dir es) = True"
| "isDirectory (File c) = False"

definition readdirSync :: "world \<Rightarrow> string \<Rightarrow> error + string list" where
  "readdirSync w p =
     (case node_at w p of
        Some (Dir es) \<Rightarrow> if read_denied w p then Inl IOError else Inr es
      | _ \<Rightarrow> Inl IOError)"

definition readFileSync :: "world \<Rightarrow> string \<Rightarrow> error + string" where
  "readFileSync w p =
     (case node_at w p of
        Some (File c) \<Rightarrow> if read_denied w p then Inl IOError else Inr c
      | _ \<Rightarrow> Inl IOError)"

definition writeFileSync :: "string \<Rightarrow> string \<Rightarrow> world \<Rightarrow> error + world" where
  "writeFileSync p c w =
     (if p = [] \<or> write_denied w p then Inl IOError
      else case nodes w p of
             Some (Dir es) \<Rightarrow> Inl IOError
           | _ \<Rightarrow> Inr (w\<lparr>nodes := (nodes w)(p \<mapsto> File c)\<rparr>))"

text \<open>\<^verbatim>\<open>mkdirSync(p, { recursive: true })\<close>: an existing directory is left as it is.\<close>

definition mkdirSync :: "string \<Rightarrow> world \<Rightarrow> error + world" where
  "mkdirSync p w =
     (if p = [] \<or> write_denied w p then Inl IOError
      else case nodes w p of
             Some (File c) \<Rightarrow> Inl IOError
           | Some (Dir es) \<Rightarrow> Inr w
           | None \<Rightarrow> Inr (w\<lparr>nodes := (nodes w)(p \<mapsto> Dir [])\<rparr>))"

definition copyFileSync :: "string \<Rightarrow> string \<Rightarrow> world \<Rightarrow> error + world" where
  "copyFileSync src dest w =
     (case readFileSync w src of
        Inl e \<Rightarrow> Inl e
      | Inr c \<Rightarrow> writeFileSync dest c w)"

definition emit :: "event \<Rightarrow> world \<Rightarrow> world" where
  "emit e w = w\<lparr>events := events w @ [e]\<rparr>"

text \<open>
  \<^verbatim>\<open>path.parse(base).name\<close> for a name without a separator, as \<^verbatim>\<open>readdirSync\<close> returns
  them: the name up to its last dot, and the whole name when it has no dot, when its only
  dot is the first character, or when it is \<^verbatim>\<open>..\<close>.
\<close>

definition path_parse_name :: "string \<Rightarrow> string" where
  "path_parse_name base =
     (let startDot = length base - Suc (length (takeWhile (\<lambda>c. c \<noteq> CHR ''.'') (rev base)))
      in if CHR ''.'' \<notin> set base \<or> startDot = 0 \<or> base = ''..'' then base
         else take startDot base)"

section \<open>Helper functions of the extension\<close>

definition createFile :: "string \<Rightarrow> string \<Rightarrow> world \<Rightarrow> error + world" where
  "createFile filePath content w = writeFileSync filePath content w"

definition showMissingPathsError :: "world \<Rightarrow> world" where
  "showMissingPathsError w =
     emit (ShowErrorMessage ''Error: Engine or Project root not found in workspace. Please run 'Generate Visual Studio Code Project' from the Unreal Editor.'') w"

subsection \<open>getWorkspacePaths\<close>

text \<open>One turn of the loop over the workspace folders; the accumulator holds the three
  variables \<^verbatim>\<open>projectRoot\<close>, \<^verbatim>\<open>engineRoot\<close> and \<^verbatim>\<open>projectName\<close>.\<close>

definition scanFolder :: "'n host \<Rightarrow> string \<Rightarrow> paths \<times> world \<Rightarrow> paths \<times> world" where
  "scanFolder h fsPath = (\<lambda>(acc, w).
     case statSync w fsPath of
       Inl e \<Rightarrow> (acc, emit (ConsoleWarn (''UE Clangd Helper: Failed to read folder '' @ fsPath)) w)
     | Inr st \<Rightarrow>
         if \<not> isDirectory st then (acc, w)
         else
           (case readdirSync w fsPath of
              Inl e \<Rightarrow> (acc, emit (ConsoleWarn (''UE Clangd Helper: Failed to read folder '' @ fsPath)) w)
            | Inr files \<Rightarrow>
                let uproject = find (\<lambda>f. suffix ''.uproject'' f) files;
                    acc1 = (case uproject of
                              None \<Rightarrow> acc
                            | Some u \<Rightarrow>
                                if u = [] then acc
                                else acc\<lparr>projectRoot := fsPath, projectName := path_parse_name u\<rparr>);
                    acc2 = (if existsSync w (path_join h [fsPath, ''Engine'', ''Build'', ''BatchFiles'', ''Build.bat''])
                            then acc1\<lparr>engineRoot := fsPath\<rparr> else acc1)
                in (acc2, w)))"

definition getWorkspacePaths :: "'n host \<Rightarrow> world \<Rightarrow> paths option \<times> world" where
  "getWorkspacePaths h w =
     (case workspaceFolders h of
        None \<Rightarrow> (None, w)
      | Some folders \<Rightarrow>
          let (acc, w') = fold (scanFolder h) folders
                            (\<lparr>projectRoot = [], engineRoot = [], projectName = []\<rparr>, w)
          in (if projectRoot acc \<noteq> [] \<and> engineRoot acc \<noteq> [] \<and> projectName acc \<noteq> []
              then Some acc else None, w'))"

subsection \<open>triggerTask\<close>

definition triggerTask :: "'n host \<Rightarrow> string \<Rightarrow> world \<Rightarrow> world" where
  "triggerTask h taskName w =
     (case find (\<lambda>t. t = taskName) (fetchTasks h) of
        Some task \<Rightarrow> emit (ExecuteTask task) w
      | None \<Rightarrow>
          emit (ShowErrorMessage (''Task '' @ [CHR 0x27] @ taskName @ [CHR 0x27] @
                                  '' not found. Try running Setup first.'')) w)"

subsection \<open>hasPhantomErrors\<close>

definition errorCode :: "'n host \<Rightarrow> 'n diag_code \<Rightarrow> string" where
  "errorCode h c =
     (case c of
        CodeString s \<Rightarrow> s
      | CodeObject v \<Rightarrow> (case v of ValueString s \<Rightarrow> s | ValueNumber n \<Rightarrow> number_to_string h n)
      | _ \<Rightarrow> [])"

definition hasPhantomErrors :: "'n host \<Rightarrow> string \<Rightarrow> bool" where
  "hasPhantomErrors h fileUri =
     list_ex (\<lambda>d. severity d = Error \<and>
                  (errorCode h (code d) = ''ovl_deleted_init'' \<or>
                   errorCode h (code d) = ''missing_type_specifier''))
       (getDiagnostics h fileUri)"

subsection \<open>injectTasks\<close>

text \<open>The four task definitions (\<^verbatim>\<open>newTasks\<close>), built from the resolved paths.\<close>

definition newTasks :: "'n host \<Rightarrow> paths \<Rightarrow> 'n json list" where
  "newTasks h paths =
     (let buildBat = path_join h [engineRoot paths, ''Engine'', ''Build'', ''BatchFiles'', ''Build.bat''];
          uproject = path_join h [projectRoot paths, projectName paths @ ''.uproject''];
          manifest = path_join h [projectRoot paths, ''Intermediate'', ''Build'', ''Win64'',
                                  projectName paths @ ''Editor'', ''Development'',
                                  projectName paths @ ''Editor.uhtmanifest'']
      in [JObj [(''label'', JStr TASK_GENERATE),
                (''type'', JStr ''shell''),
                (''command'', JStr buildBat),
                (''args'', JArr [JStr (projectName paths @ ''Editor''), JStr ''Win64'',
                                 JStr ''Development'', JStr (''-project='' @ uproject),
                                 JStr ''-mode=GenerateClangDatabase'', JStr ''-game'',
                                 JStr ''-rocket'', JStr ''-progress'', JStr ''-UsePrecompiled'']),
                (''group'', JStr ''build''),
                (''problemMatcher'', JArr [])],
          JObj [(''label'', JStr TASK_UHT),
                (''type'', JStr ''shell''),
                (''command'', JStr buildBat),
                (''args'', JArr [JStr ''-Mode=UnrealHeaderTool'', JStr uproject, JStr manifest,
                                 JStr ''-WarningsAsErrors'']),
                (''problemMatcher'', JStr ''$msCompile''),
                (''presentation'', JObj [(''reveal'', JStr ''silent''), (''panel'', JStr ''shared'')])],
          JObj [(''label'', JStr ''Restart Clangd''),
                (''command'', JStr ''${command:clangd.restart}''),
                (''problemMatcher'', JArr [])],
          JObj [(''label'', JStr TASK_COMPOUND),
                (''dependsOn'', JArr [JStr TASK_UHT, JStr ''Restart Clangd'']),
                (''dependsOrder'', JStr ''sequence''),
                (''group'', JObj [(''kind'', JStr ''build''), (''isDefault'', JBool False)]),
                (''problemMatcher'', JArr [])]])"

text \<open>
  The variable \<^verbatim>\<open>tasksJson\<close> once the manifest is loaded. It holds an object, or an array
  that has received a property \<^verbatim>\<open>tasks\<close> of its own (which \<^verbatim>\<open>JSON.stringify\<close> does not
  print, an array being printed as its elements).
\<close>

datatype 'n manifest =
    ObjectManifest "(string \<times> 'n json) list"
  | ArrayManifest "'n json list" "'n json"

fun tasksOf :: "'n manifest \<Rightarrow> 'n json option" where
  "tasksOf (ObjectManifest kvs) = map_of kvs ''tasks''"
| "tasksOf (ArrayManifest xs t) = Some t"

fun setTasks :: "'n json \<Rightarrow> 'n manifest \<Rightarrow> 'n manifest" where
  "setTasks t (ObjectManifest kvs) = ObjectManifest (AList.update ''tasks'' t kvs)"
| "setTasks t (ArrayManifest xs t0) = ArrayManifest xs t"

fun serialized :: "'n manifest \<Rightarrow> 'n json" where
  "serialized (ObjectManifest kvs) = JObj kvs"
| "serialized (ArrayManifest xs t) = JArr xs"

definition defaultManifest :: "'n manifest" where
  "defaultManifest = ObjectManifest [(''version'', JStr ''2.0.0''), (''tasks'', JArr [])]"

text \<open>\<^verbatim>\<open>!v\<close> for the value of a property (\<open>None\<close> is \<^verbatim>\<open>undefined\<close>).\<close>

fun falsy :: "'n host \<Rightarrow> 'n json option \<Rightarrow> bool" where
  "falsy h None = True"
| "falsy h (Some JNull) = True"
| "falsy h (Some (JBool b)) = (\<not> b)"
| "falsy h (Some (JNum n)) = (\<not> number_truthy h n)"
| "falsy h (Some (JStr s)) = (s = [])"
| "falsy h (Some (JArr xs)) = False"
| "falsy h (Some (JObj kvs)) = False"

text \<open>
  \<^verbatim>\<open>if (!tasksJson.tasks) { tasksJson.tasks = []; }\<close> on the parsed value. Reading a
  property of \<^verbatim>\<open>null\<close> throws; a number, a string or a boolean has no property \<^verbatim>\<open>tasks\<close>,
  and creating one throws (the module is strict code).
\<close>

fun ensureTasks :: "'n host \<Rightarrow> 'n json \<Rightarrow> error + 'n manifest" where
  "ensureTasks h (JObj kvs) =
     Inr (if falsy h (map_of kvs ''tasks'') then setTasks (JArr []) (ObjectManifest kvs)
          else ObjectManifest kvs)"
| "ensureTasks h (JArr xs) = Inr (ArrayManifest xs (JArr []))"
| "ensureTasks h JNull = Inl TypeError"
| "ensureTasks h (JBool b) = Inl TypeError"
| "ensureTasks h (JNum n) = Inl TypeError"
| "ensureTasks h (JStr s) = Inl TypeError"

text \<open>Lines 191 to 207: the default structure, replaced by the parsed file when there is
  one; every exception of the \<^verbatim>\<open>try\<close> block ends in the warning and the default.\<close>

definition loadManifest :: "'n host \<Rightarrow> string \<Rightarrow> world \<Rightarrow> 'n manifest \<times> world" where
  "loadManifest h tasksJsonPath w =
     (let failed = (defaultManifest,
                    emit (ConsoleWarn ''UE Clangd Helper: Failed to parse existing tasks.json, creating new one.'') w)
      in if existsSync w tasksJsonPath then
           (case readFileSync w tasksJsonPath of
              Inl e \<Rightarrow> failed
            | Inr content \<Rightarrow>
                (case json_parse h content of
                   None \<Rightarrow> failed
                 | Some parsed \<Rightarrow>
                     (case ensureTasks h parsed of
                        Inl e \<Rightarrow> failed
                      | Inr tasksJson \<Rightarrow> (tasksJson, w))))
         else (defaultManifest, w))"

text \<open>\<^verbatim>\<open>et.label === l\<close> for a string \<open>l\<close>.\<close>

fun labelIs :: "string \<Rightarrow> 'n json \<Rightarrow> error + bool" where
  "labelIs l JNull = Inl TypeError"
| "labelIs l (JObj kvs) = Inr (map_of kvs ''label'' = Some (JStr l))"
| "labelIs l (JBool b) = Inr False"
| "labelIs l (JNum n) = Inr False"
| "labelIs l (JStr s) = Inr False"
| "labelIs l (JArr xs) = Inr False"

text \<open>\<^verbatim>\<open>tasks.findIndex(et => et.label === l)\<close>; \<open>None\<close> is \<^verbatim>\<open>-1\<close>.\<close>

fun findIndex :: "string \<Rightarrow> 'n json list \<Rightarrow> error + nat option" where
  "findIndex l [] = Inr None"
| "findIndex l (et # ets) =
     (case labelIs l et of
        Inl e \<Rightarrow> Inl e
      | Inr True \<Rightarrow> Inr (Some 0)
      | Inr False \<Rightarrow>
          (case findIndex l ets of
             Inl e \<Rightarrow> Inl e
           | Inr None \<Rightarrow> Inr None
           | Inr (Some i) \<Rightarrow> Inr (Some (Suc i))))"

text \<open>The label of one of the new task definitions (\<^verbatim>\<open>nt.label\<close>, always a string).\<close>

fun labelOf :: "'n json \<Rightarrow> string" where
  "labelOf (JObj kvs) = (case map_of kvs ''label'' of Some (JStr l) \<Rightarrow> l | _ \<Rightarrow> [])"
| "labelOf v = []"

text \<open>The body of the \<^verbatim>\<open>forEach\<close> callback, on the array \<^verbatim>\<open>tasksJson.tasks\<close>.\<close>

definition updateOrAdd :: "'n json \<Rightarrow> 'n json list \<Rightarrow> error + 'n json list" where
  "updateOrAdd nt tasks =
     (case findIndex (labelOf nt) tasks of
        Inl e \<Rightarrow> Inl e
      | Inr (Some idx) \<Rightarrow> Inr (tasks[idx := nt])
      | Inr None \<Rightarrow> Inr (tasks @ [nt]))"

fun forEachTask :: "'n json list \<Rightarrow> 'n json list \<Rightarrow> error + 'n json list" where
  "forEachTask [] tasks = Inr tasks"
| "forEachTask (nt # nts) tasks =
     (case updateOrAdd nt tasks of
        Inl e \<Rightarrow> Inl e
      | Inr tasks' \<Rightarrow> forEachTask nts tasks')"

text \<open>Lines 210 to 217. A value of \<^verbatim>\<open>tasksJson.tasks\<close> that is not an array has no
  method \<^verbatim>\<open>findIndex\<close>, and the call throws in the first turn of the \<^verbatim>\<open>forEach\<close>
  (there is one, \<^verbatim>\<open>newTasks\<close> having four elements).\<close>

definition mergeTasks :: "'n json list \<Rightarrow> 'n manifest \<Rightarrow> error + 'n manifest" where
  "mergeTasks nts tasksJson =
     (case tasksOf tasksJson of
        Some (JArr tasks) \<Rightarrow>
          (case forEachTask nts tasks of
             Inl e \<Rightarrow> Inl e
           | Inr tasks' \<Rightarrow> Inr (setTasks (JArr tasks') tasksJson))
      | _ \<Rightarrow> Inl TypeError)"

text \<open>Lines 145 to 217: everything that \<^verbatim>\<open>injectTasks\<close> does before it writes the file,
  with the value of \<^verbatim>\<open>tasksJson\<close> that reaches the write.\<close>

definition mergedTasksJson :: "'n host \<Rightarrow> paths \<Rightarrow> world \<Rightarrow> (error + 'n manifest) \<times> world" where
  "mergedTasksJson h paths w =
     (let vscodeDir = path_join h [projectRoot paths, ''.vscode''];
          tasksJsonPath = path_join h [vscodeDir, ''tasks.json'']
      in case (if \<not> existsSync w vscodeDir then mkdirSync vscodeDir w else Inr w) of
           Inl e \<Rightarrow> (Inl e, w)
         | Inr w1 \<Rightarrow>
             (case loadManifest h tasksJsonPath w1 of
                (tasksJson, w2) \<Rightarrow> (mergeTasks (newTasks h paths) tasksJson, w2)))"

text \<open>The whole function: line 220 writes the merged value back.\<close>

definition injectTasks :: "'n host \<Rightarrow> paths \<Rightarrow> world \<Rightarrow> (error + unit) \<times> world" where
  "injectTasks h paths w =
     (let vscodeDir = path_join h [projectRoot paths, ''.vscode''];
          tasksJsonPath = path_join h [vscodeDir, ''tasks.json'']
      in case mergedTasksJson h paths w of
           (Inl e, w2) \<Rightarrow> (Inl e, w2)
         | (Inr tasksJson, w2) \<Rightarrow>
             (case writeFileSync tasksJsonPath (json_stringify h (serialized tasksJson)) w2 of
                Inl e \<Rightarrow> (Inl e, w2)
              | Inr w3 \<Rightarrow> (Inr (), w3)))"

subsection \<open>syncCompileCommands\<close>

definition syncCompileCommands :: "'n host \<Rightarrow> world \<Rightarrow> world" where
  "syncCompileCommands h w =
     (case getWorkspacePaths h w of
        (None, w1) \<Rightarrow> w1
      | (Some paths, w1) \<Rightarrow>
          let source = path_join h [engineRoot paths, ''compile_commands.json''];
              dest = path_join h [projectRoot paths, ''compile_commands.json'']
          in if existsSync w1 source then
               (case copyFileSync source dest w1 of
                  Inl e \<Rightarrow>
                    emit (ShowErrorMessage ''Failed to copy compile_commands.json. Check file permissions.'') w1
                | Inr w2 \<Rightarrow>
                    let w3 = emit (ExecuteCommand ''clangd.restart'')
                               (emit (ShowInformationMessage ''Synced compile_commands.json from Engine to Project.'') w2)
                    in if command_resolves h ''clangd.restart'' then w3
                       else emit (ShowErrorMessage ''Failed to copy compile_commands.json. Check file permissions.'') w3)
             else
               emit (ShowWarningMessage ''compile_commands.json not found in Engine root. Did the generate task fail?'') w1)"

subsection \<open>runSetup\<close>

text \<open>Lines 81 to 99, the body of \<^verbatim>\<open>if (config.get('generateConfigs'))\<close>. Every exception
  but that of the write into the engine root reaches the outer \<^verbatim>\<open>catch\<close>.\<close>

definition installConfigs :: "'n host \<Rightarrow> paths \<Rightarrow> world \<Rightarrow> world" where
  "installConfigs h paths w =
     (let clangdSrc = asAbsolutePath h (path_join h [''resources'', ''.clangd'']);
          formatSrc = asAbsolutePath h (path_join h [''resources'', ''.clang-format'']);
          caught = (\<lambda>w'. emit ConsoleError
                      (emit (ShowErrorMessage ''Failed to read resource templates. Check extension installation.'') w'))
      in case readFileSync w clangdSrc of
           Inl e \<Rightarrow> caught w
         | Inr clangdContent \<Rightarrow>
             (case readFileSync w formatSrc of
                Inl e \<Rightarrow> caught w
              | Inr formatContent \<Rightarrow>
                  (case createFile (path_join h [projectRoot paths, ''.clangd'']) clangdContent w of
                     Inl e \<Rightarrow> caught w
                   | Inr w1 \<Rightarrow>
                       (case createFile (path_join h [projectRoot paths, ''.clang-format'']) formatContent w1 of
                          Inl e \<Rightarrow> caught w1
                        | Inr w2 \<Rightarrow>
                            (case createFile (path_join h [engineRoot paths, ''.clangd'']) clangdContent w2 of
                               Inl e \<Rightarrow>
                                 emit (ShowWarningMessage ''Could not write .clangd to Engine root. Run VSCode as Admin if needed.'') w2
                             | Inr w3 \<Rightarrow> w3)))))"

text \<open>The delay of 500 ms between the injection and the trigger changes nothing that is
  modelled here.\<close>

definition runSetup :: "'n host \<Rightarrow> world \<Rightarrow> (error + unit) \<times> world" where
  "runSetup h w =
     (case getWorkspacePaths h w of
        (None, w1) \<Rightarrow> (Inr (), showMissingPathsError w1)
      | (Some paths, w1) \<Rightarrow>
          let w2 = (if config_get h ''generateConfigs'' then installConfigs h paths w1 else w1)
          in (case injectTasks h paths w2 of
                (Inl e, w3) \<Rightarrow> (Inl e, w3)
              | (Inr u, w3) \<Rightarrow>
                  (Inr (),
                   emit (ShowInformationMessage ''UE Clangd Helper: Setup initiated. Build task running...'')
                     (triggerTask h TASK_GENERATE w3))))"

subsection \<open>The save watcher\<close>

definition saveWatcher :: "'n host \<Rightarrow> textDocument \<Rightarrow> world \<Rightarrow> world" where
  "saveWatcher h savedDocument w =
     (if \<not> config_get h ''autoFixOnSave'' then w
      else case getWorkspacePaths h w of
             (None, w1) \<Rightarrow> w1
           | (Some projectPaths, w1) \<Rightarrow>
               let isHeader = suffix ''.h'' (fileName savedDocument);
                   isInSource = sublist (path_join h [projectRoot projectPaths, ''Source''])
                                  (fileName savedDocument)
               in if isHeader \<and> isInSource then
                    (if hasPhantomErrors h (uri savedDocument)
                     then triggerTask h TASK_COMPOUND w1 else w1)
                  else w1)"

subsection \<open>The commands and the task watcher\<close>

text \<open>What \<^verbatim>\<open>activate\<close> registers besides the save watcher: the three commands, and the
  watcher that is called with the name of a task that has ended.\<close>

definition cmdSetup :: "'n host \<Rightarrow> world \<Rightarrow> (error + unit) \<times> world" where
  "cmdSetup h w = runSetup h w"

definition cmdRefreshFiles :: "'n host \<Rightarrow> world \<Rightarrow> world" where
  "cmdRefreshFiles h w =
     (case getWorkspacePaths h w of
        (None, w1) \<Rightarrow> showMissingPathsError w1
      | (Some paths, w1) \<Rightarrow> triggerTask h TASK_GENERATE w1)"

definition cmdRefreshHeaders :: "'n host \<Rightarrow> world \<Rightarrow> (error + unit) \<times> world" where
  "cmdRefreshHeaders h w =
     (case getWorkspacePaths h w of
        (None, w1) \<Rightarrow> (Inr (), showMissingPathsError w1)
      | (Some paths, w1) \<Rightarrow>
          (case injectTasks h paths w1 of
             (Inl e, w2) \<Rightarrow> (Inl e, w2)
           | (Inr u, w2) \<Rightarrow> (Inr (), triggerTask h TASK_COMPOUND w2)))"

definition taskWatcher :: "'n host \<Rightarrow> string \<Rightarrow> world \<Rightarrow> world" where
  "taskWatcher h taskName w =
     (if taskName = TASK_GENERATE then
        (if config_get h ''syncCompileCommands'' then syncCompileCommands h w else w)
      else w)"

section \<open>Notions used in the statements\<close>

text \<open>
  What the scan of one folder finds: the first name of its listing that ends in
  \<^verbatim>\<open>.uproject\<close>, and whether the marker script exists below it. Both need the listing to
  succeed, since the code reaches neither test when \<^verbatim>\<open>statSync\<close> or \<^verbatim>\<open>readdirSync\<close> throws
  or when the path is no directory. \<open>scanAcc\<close> is the effect of one turn of the loop on the
  three variables.
\<close>

definition descriptorOf :: "world \<Rightarrow> string \<Rightarrow> string option" where
  "descriptorOf w folder =
     (case readdirSync w folder of
        Inl e \<Rightarrow> None
      | Inr files \<Rightarrow> find (\<lambda>f. suffix ''.uproject'' f) files)"

definition hasMarker :: "'n host \<Rightarrow> world \<Rightarrow> string \<Rightarrow> bool" where
  "hasMarker h w folder =
     (case readdirSync w folder of
        Inl e \<Rightarrow> False
      | Inr files \<Rightarrow>
          existsSync w (path_join h [folder, ''Engine'', ''Build'', ''BatchFiles'', ''Build.bat'']))"

definition scanAcc :: "'n host \<Rightarrow> world \<Rightarrow> string \<Rightarrow> paths \<Rightarrow> paths" where
  "scanAcc h w folder acc =
     (let acc1 = (case descriptorOf w folder of
                    None \<Rightarrow> acc
                  | Some u \<Rightarrow> acc\<lparr>projectRoot := folder, projectName := path_parse_name u\<rparr>)
      in if hasMarker h w folder then acc1\<lparr>engineRoot := folder\<rparr> else acc1)"

text \<open>The descriptors in scan order, as claim C5 speaks of them: folder after folder,
  and in each folder name after name.\<close>

definition descriptorsScanned :: "'n host \<Rightarrow> world \<Rightarrow> string list" where
  "descriptorsScanned h w =
     concat (map (\<lambda>folder. case readdirSync w folder of
                              Inl e \<Rightarrow> []
                            | Inr files \<Rightarrow> filter (\<lambda>f. suffix ''.uproject'' f) files)
               (case workspaceFolders h of None \<Rightarrow> [] | Some folders \<Rightarrow> folders))"

text \<open>A write at a path goes through: the path is not empty, the write is not denied,
  and no directory is in the way.\<close>

definition canWrite :: "world \<Rightarrow> string \<Rightarrow> bool" where
  "canWrite w p =
     (p \<noteq> [] \<and> \<not> write_denied w p \<and> (case nodes w p of Some (Dir es) \<Rightarrow> False | _ \<Rightarrow> True))"

text \<open>
  Notions for the task list. \<open>hasLabel l t\<close>: the entry \<open>t\<close> is an object whose label is
  the string \<open>l\<close>. \<open>requiredLabels\<close>: the labels of the four task definitions.
  \<open>taskObject\<close>: an object with a string label, as each new definition is.
  \<open>upsert l nt ts\<close>: the list \<open>ts\<close> with its first entry labelled \<open>l\<close> replaced by \<open>nt\<close>,
  or with \<open>nt\<close> appended when no entry has that label.
\<close>

definition hasLabel :: "string \<Rightarrow> 'n json \<Rightarrow> bool" where
  "hasLabel l t = (labelIs l t = Inr True)"

definition requiredLabels :: "string list" where
  "requiredLabels = [TASK_GENERATE, TASK_UHT, ''Restart Clangd'', TASK_COMPOUND]"

fun taskObject :: "'n json \<Rightarrow> bool" where
  "taskObject (JObj kvs) = (case map_of kvs ''label'' of Some (JStr l) \<Rightarrow> True | _ \<Rightarrow> False)"
| "taskObject v = False"

fun upsert :: "string \<Rightarrow> 'n json \<Rightarrow> 'n json list \<Rightarrow> 'n json list" where
  "upsert l nt [] = [nt]"
| "upsert l nt (t # ts) = (if hasLabel l t then nt # ts else t # upsert l nt ts)"

section \<open>A concrete runtime and host, for the examples\<close>

text \<open>
  The examples run the functions above on a small concrete host with integer numbers:
  \<open>posixJoin\<close> joins segments that are already normalised with a slash, \<open>render\<close>
  prints a value as \<^verbatim>\<open>JSON.stringify(v, null, 4)\<close> lays it out, and \<open>parseKnown vs\<close>
  reads the text of each value of \<open>vs\<close> back and rejects every other text.
\<close>

fun posixJoin :: "string list \<Rightarrow> string" where
  "posixJoin [] = ''.''"
| "posixJoin [p] = p"
| "posixJoin (p # q # ps) = p @ ''/'' @ posixJoin (q # ps)"

fun decimal :: "nat \<Rightarrow> string" where
  "decimal n = (if n < 10 then [''0123456789'' ! n]
                else decimal (n div 10) @ [''0123456789'' ! (n mod 10)])"

declare decimal.simps [simp del]

definition showInt :: "int \<Rightarrow> string" where
  "showInt i = (if i < 0 then ''-'' @ decimal (nat (- i)) else decimal (nat i))"

definition quoted :: "string \<Rightarrow> string" where
  "quoted s = [CHR 0x22] @ concat (map (\<lambda>c. if c = CHR 0x22 \<or> c = CHR 0x5C then [CHR 0x5C, c] else [c]) s) @ [CHR 0x22]"

definition lineBreak :: "nat \<Rightarrow> string" where
  "lineBreak d = CHR 0x0A # replicate (4 * d) CHR '' ''"

fun separated :: "string \<Rightarrow> string list \<Rightarrow> string" where
  "separated sep [] = []"
| "separated sep [x] = x"
| "separated sep (x # y # ys) = x @ sep @ separated sep (y # ys)"

fun render :: "nat \<Rightarrow> int json \<Rightarrow> string" where
  "render d JNull = ''null''"
| "render d (JBool b) = (if b then ''true'' else ''false'')"
| "render d (JNum n) = showInt n"
| "render d (JStr s) = quoted s"
| "render d (JArr xs) =
     (if xs = [] then ''[]''
      else ''['' @ lineBreak (Suc d) @
           separated ('','' @ lineBreak (Suc d)) (map (render (Suc d)) xs) @
           lineBreak d @ '']'')"
| "render d (JObj kvs) =
     (if kvs = [] then ''{}''
      else ''{'' @ lineBreak (Suc d) @
           separated ('','' @ lineBreak (Suc d))
             (map (\<lambda>(k, v). quoted k @ '': '' @ render (Suc d) v) kvs) @
           lineBreak d @ ''}'')"

definition parseKnown :: "int json list \<Rightarrow> string \<Rightarrow> int json option" where
  "parseKnown vs s = find (\<lambda>v. render 0 v = s) vs"

definition digitChars :: "char set" where
  "digitChars = set ''-0123456789''"

definition demoHost :: "int host" where
  "demoHost =
     \<lparr>json_parse = parseKnown [],
      json_stringify = render 0,
      number_truthy = (\<lambda>n. n \<noteq> 0),
      number_to_string = showInt,
      path_join = posixJoin,
      asAbsolutePath = (\<lambda>p. ''/ext/'' @ p),
      workspaceFolders = Some [''/proj'', ''/ue''],
      config_get = (\<lambda>k. True),
      fetchTasks = [TASK_GENERATE, TASK_UHT, ''Restart Clangd'', TASK_COMPOUND],
      getDiagnostics = (\<lambda>u. []),
      command_resolves = (\<lambda>c. True)\<rparr>"

definition demoWorld :: world where
  "demoWorld =
     \<lparr>nodes = map_of
        [(''/proj'', Dir [''Game.uproject'', ''Source'']),
         (''/ue'', Dir [''Engine'']),
         (''/ue/Engine/Build/BatchFiles/Build.bat'', File ''@echo off''),
         (''/ue/compile_commands.json'', File ''[]''),
         (''/ext/resources/.clangd'', File ''CompileFlags:''),
         (''/ext/resources/.clang-format'', File ''BasedOnStyle: LLVM'')],
      read_denied = (\<lambda>p. False),
      write_denied = (\<lambda>p. False),
      events = []\<rparr>"

text \<open>A project folder that lists two descriptors, and a workspace in which the engine
  folder lists descriptors too.\<close>

definition twoDescriptorsWorld :: world where
  "twoDescriptorsWorld =
     demoWorld\<lparr>nodes := (nodes demoWorld)
        (''/proj'' \<mapsto> Dir [''Alpha.uproject'', ''Source'', ''Beta.uproject''])\<rparr>"

definition twoProjectsWorld :: world where
  "twoProjectsWorld =
     demoWorld\<lparr>nodes := (nodes demoWorld)
        (''/proj'' \<mapsto> Dir [''Alpha.uproject'', ''Beta.uproject''],
         ''/ue'' \<mapsto> Dir [''Engine'', ''Gamma.uproject'', ''Delta.uproject''],
         ''/ue/Engine/Build/BatchFiles/Build.bat'' \<mapsto> File ''@echo off'')\<rparr>"

definition demoPaths :: paths where
  "demoPaths = \<lparr>projectRoot = ''/proj'', engineRoot = ''/ue'', projectName = ''Game''\<rparr>"

text \<open>A host that reports a phantom error for every file, and a world in which nothing
  can be written below the engine root.\<close>

definition phantomHost :: "int host" where
  "phantomHost =
     demoHost\<lparr>getDiagnostics := (\<lambda>u. [\<lparr>severity = Error, code = CodeString ''ovl_deleted_init''\<rparr>])\<rparr>"

definition lockedEngineWorld :: world where
  "lockedEngineWorld = demoWorld\<lparr>write_denied := (\<lambda>p. prefix ''/ue/'' p)\<rparr>"

text \<open>An existing manifest with an unrelated task, an outdated required task and a field
  of its own; a host that can read it back, and one that can also read back what the
  injection writes; and a manifest file that is no JSON.\<close>

definition fooTask :: "int json" where
  "fooTask = JObj [(''label'', JStr ''Foo''), (''type'', JStr ''shell''), (''command'', JStr ''echo foo'')]"

definition fooManifest :: "int json" where
  "fooManifest =
     JObj [(''version'', JStr ''1.9.0''),
           (''tasks'', JArr [fooTask,
                             JObj [(''label'', JStr ''Restart Clangd''), (''command'', JStr ''old'')]]),
           (''inputs'', JArr [])]"

definition fooHost :: "int host" where
  "fooHost = demoHost\<lparr>json_parse := parseKnown [fooManifest]\<rparr>"

definition fooWorld :: world where
  "fooWorld =
     demoWorld\<lparr>nodes := (nodes demoWorld)
        (''/proj/.vscode'' \<mapsto> Dir [''tasks.json''],
         ''/proj/.vscode/tasks.json'' \<mapsto> File (render 0 fooManifest))\<rparr>"

fun topFields :: "'n json \<Rightarrow> (string \<times> 'n json) list" where
  "topFields (JObj kvs) = kvs"
| "topFields v = []"

definition fooMerged :: "int json" where
  "fooMerged =
     (case fst (mergedTasksJson fooHost demoPaths fooWorld) of
        Inr tasksJson \<Rightarrow> serialized tasksJson
      | Inl e \<Rightarrow> JNull)"

definition roundTripHost :: "int host" where
  "roundTripHost = demoHost\<lparr>json_parse := parseKnown [fooManifest, fooMerged]\<rparr>"

definition brokenWorld :: world where
  "brokenWorld =
     demoWorld\<lparr>nodes := (nodes demoWorld)
        (''/proj/.vscode'' \<mapsto> Dir [''tasks.json''],
         ''/proj/.vscode/tasks.json'' \<mapsto> File ''{ version: 2.0.0, tasks: ['')\<rparr>"

section \<open>Facts about the concrete host\<close>

lemma digit_nth: "''0123456789'' ! (k mod 10) \<in> digitChars"
proof -
  have "k mod 10 < length ''0123456789''" by simp
  then have "''0123456789'' ! (k mod 10) \<in> set ''0123456789''" by (rule nth_mem)
  then show ?thesis unfolding digitChars_def by auto
qed

lemma decimal_chars: "set (decimal n) \<subseteq> digitChars"
proof (induction n rule: decimal.induct)
  case (1 n)
  show ?case
  proof (cases "n < 10")
    case True
    then have "n mod 10 = n" by simp
    with digit_nth [of n] have "''0123456789'' ! n \<in> digitChars" by simp
    with True show ?thesis by (subst decimal.simps) simp
  next
    case False
    with 1 digit_nth [of n] show ?thesis by (subst decimal.simps) simp
  qed
qed

lemma showInt_chars: "set (showInt i) \<subseteq> digitChars"
proof -
  have "CHR ''-'' \<in> digitChars" by (simp add: digitChars_def)
  then show ?thesis
    using decimal_chars [of "nat i"] decimal_chars [of "nat (- i)"]
    by (simp add: showInt_def)
qed

lemma showInt_not_code:
  "showInt i \<noteq> ''ovl_deleted_init'' \<and> showInt i \<noteq> ''missing_type_specifier''"
proof -
  have "CHR ''i'' \<notin> digitChars" by (simp add: digitChars_def)
  then have "CHR ''i'' \<notin> set (showInt i)" using showInt_chars [of i] by blast
  moreover have "CHR ''i'' \<in> set ''ovl_deleted_init''" by simp
  moreover have "CHR ''i'' \<in> set ''missing_type_specifier''" by simp
  ultimately show ?thesis by metis
qed

section \<open>Path resolution\<close>

lemma find_suffix_nonempty: "find (\<lambda>f. suffix ''.uproject'' f) files = Some u \<Longrightarrow> u \<noteq> []"
  by (auto simp: find_Some_iff)

lemma scanFolder_fst: "fst (scanFolder h folder (acc, w)) = scanAcc h w folder acc"
  by (auto simp: scanFolder_def scanAcc_def descriptorOf_def hasMarker_def statSync_def
        readdirSync_def Let_def
      split: option.splits sum.splits node.splits dest: find_suffix_nonempty)

lemma scanFolder_snd:
  "nodes (snd (scanFolder h folder (acc, w))) = nodes w \<and>
   read_denied (snd (scanFolder h folder (acc, w))) = read_denied w \<and>
   write_denied (snd (scanFolder h folder (acc, w))) = write_denied w"
  by (auto simp: scanFolder_def emit_def Let_def split: option.splits sum.splits)

lemma scanAcc_cong:
  "nodes w' = nodes w \<Longrightarrow> read_denied w' = read_denied w \<Longrightarrow> scanAcc h w' f acc = scanAcc h w f acc"
proof -
  assume a: "nodes w' = nodes w" "read_denied w' = read_denied w"
  have r: "readdirSync w' f = readdirSync w f"
    using a by (simp add: readdirSync_def node_at_def split: option.splits node.splits)
  have e: "existsSync w' p = existsSync w p" for p
    using a by (simp add: existsSync_def node_at_def)
  show ?thesis
    unfolding scanAcc_def descriptorOf_def hasMarker_def r e ..
qed

lemma fold_scanFolder:
  "nodes w' = nodes w \<Longrightarrow> read_denied w' = read_denied w \<Longrightarrow> write_denied w' = write_denied w \<Longrightarrow>
   fst (fold (scanFolder h) folders (acc, w')) = fold (scanAcc h w) folders acc \<and>
   nodes (snd (fold (scanFolder h) folders (acc, w'))) = nodes w \<and>
   read_denied (snd (fold (scanFolder h) folders (acc, w'))) = read_denied w \<and>
   write_denied (snd (fold (scanFolder h) folders (acc, w'))) = write_denied w"
proof (induction folders arbitrary: acc w')
  case Nil
  then show ?case by simp
next
  case (Cons f fs)
  obtain acc1 w1 where s: "scanFolder h f (acc, w') = (acc1, w1)" by (cases "scanFolder h f (acc, w')")
  have "acc1 = scanAcc h w' f acc"
    using scanFolder_fst [of h f acc w'] s by simp
  then have a: "acc1 = scanAcc h w f acc"
    using scanAcc_cong [OF Cons.prems(1) Cons.prems(2)] by simp
  have b: "nodes w1 = nodes w" "read_denied w1 = read_denied w" "write_denied w1 = write_denied w"
    using scanFolder_snd [of h f acc w'] s Cons.prems by simp_all
  show ?case using Cons.IH [OF b, of acc1] a s by simp
qed

lemma path_parse_name_nonempty: "u \<noteq> [] \<Longrightarrow> path_parse_name u \<noteq> []"
  by (auto simp: path_parse_name_def Let_def)

lemma path_parse_name_uproject:
  assumes "suffix ''.uproject'' u"
  shows "path_parse_name u = (if u = ''.uproject'' then u else take (length u - 9) u)"
proof -
  from assms obtain pre where u: "u = pre @ ''.uproject''" by (auto simp: suffix_def)
  have t: "takeWhile (\<lambda>c. c \<noteq> CHR ''.'') (rev u) = ''tcejorpu''"
    by (simp add: u)
  show ?thesis
    unfolding path_parse_name_def t Let_def by (auto simp: u)
qed

lemma readdirSync_nonempty: "readdirSync w f = Inr files \<Longrightarrow> f \<noteq> []"
  by (auto simp: readdirSync_def node_at_def)

lemma descriptorOf_Some:
  "descriptorOf w f = Some u \<longleftrightarrow>
     (\<exists>names1 names2. readdirSync w f = Inr (names1 @ u # names2) \<and> suffix ''.uproject'' u \<and>
        (\<forall>n \<in> set names1. \<not> suffix ''.uproject'' n))"
proof
  assume "descriptorOf w f = Some u"
  then obtain files where r: "readdirSync w f = Inr files"
    and f: "find (\<lambda>f. suffix ''.uproject'' f) files = Some u"
    by (auto simp: descriptorOf_def split: sum.splits)
  from f obtain i where i: "i < length files" "suffix ''.uproject'' (files ! i)" "u = files ! i"
    "\<forall>j<i. \<not> suffix ''.uproject'' (files ! j)"
    unfolding find_Some_iff by blast
  have "files = take i files @ u # drop (Suc i) files"
    using i by (simp add: id_take_nth_drop)
  moreover have "\<forall>n \<in> set (take i files). \<not> suffix ''.uproject'' n"
    using i by (auto simp: in_set_conv_nth)
  ultimately show "\<exists>names1 names2. readdirSync w f = Inr (names1 @ u # names2) \<and> suffix ''.uproject'' u \<and>
        (\<forall>n \<in> set names1. \<not> suffix ''.uproject'' n)"
    using r i by metis
next
  assume "\<exists>names1 names2. readdirSync w f = Inr (names1 @ u # names2) \<and> suffix ''.uproject'' u \<and>
        (\<forall>n \<in> set names1. \<not> suffix ''.uproject'' n)"
  then obtain names1 names2 where r: "readdirSync w f = Inr (names1 @ u # names2)"
    and u: "suffix ''.uproject'' u" and n: "\<forall>n \<in> set names1. \<not> suffix ''.uproject'' n"
    by blast
  have "find (\<lambda>f. suffix ''.uproject'' f) (names1 @ u # names2) = Some u"
    using u n by (induction names1) auto
  then show "descriptorOf w f = Some u"
    by (simp add: descriptorOf_def r)
qed

lemma descriptorOf_None:
  "descriptorOf w f = None \<longleftrightarrow>
     (\<forall>files. readdirSync w f = Inr files \<longrightarrow> (\<forall>n \<in> set files. \<not> suffix ''.uproject'' n))"
  by (cases "readdirSync w f") (auto simp: descriptorOf_def find_None_iff)

lemma hasMarker_iff:
  "hasMarker h w f \<longleftrightarrow>
     (\<exists>files. readdirSync w f = Inr files) \<and>
     existsSync w (path_join h [f, ''Engine'', ''Build'', ''BatchFiles'', ''Build.bat''])"
  by (cases "readdirSync w f") (auto simp: hasMarker_def)

lemma scanAcc_project_None:
  "descriptorOf w f = None \<Longrightarrow>
   projectRoot (scanAcc h w f a) = projectRoot a \<and> projectName (scanAcc h w f a) = projectName a"
  by (simp add: scanAcc_def Let_def)

lemma scanAcc_project_Some:
  "descriptorOf w f = Some u \<Longrightarrow>
   projectRoot (scanAcc h w f a) = f \<and> projectName (scanAcc h w f a) = path_parse_name u"
  by (simp add: scanAcc_def Let_def)

lemma scanAcc_engine:
  "engineRoot (scanAcc h w f a) = (if hasMarker h w f then f else engineRoot a)"
  by (simp add: scanAcc_def Let_def split: option.splits)

lemma fold_scanAcc_no_descriptor:
  "\<forall>g \<in> set fs. descriptorOf w g = None \<Longrightarrow>
   projectRoot (fold (scanAcc h w) fs acc) = projectRoot acc \<and>
   projectName (fold (scanAcc h w) fs acc) = projectName acc"
  by (induction fs arbitrary: acc) (simp_all add: scanAcc_project_None)

lemma fold_scanAcc_no_marker:
  "\<forall>g \<in> set fs. \<not> hasMarker h w g \<Longrightarrow>
   engineRoot (fold (scanAcc h w) fs acc) = engineRoot acc"
  by (induction fs arbitrary: acc) (simp_all add: scanAcc_engine)

lemma fold_scanAcc_last_descriptor:
  assumes "descriptorOf w f = Some u" and "\<forall>g \<in> set post. descriptorOf w g = None"
  shows "projectRoot (fold (scanAcc h w) (pre @ f # post) acc) = f \<and>
         projectName (fold (scanAcc h w) (pre @ f # post) acc) = path_parse_name u"
  using fold_scanAcc_no_descriptor [OF assms(2), of h "scanAcc h w f (fold (scanAcc h w) pre acc)"]
    scanAcc_project_Some [OF assms(1), of h "fold (scanAcc h w) pre acc"]
  by simp

lemma fold_scanAcc_last_marker:
  assumes "hasMarker h w f" and "\<forall>g \<in> set post. \<not> hasMarker h w g"
  shows "engineRoot (fold (scanAcc h w) (pre @ f # post) acc) = f"
  using fold_scanAcc_no_marker [OF assms(2), of "scanAcc h w f (fold (scanAcc h w) pre acc)"] assms(1)
  by (simp add: scanAcc_engine)

lemma getWorkspacePaths_fst:
  "fst (getWorkspacePaths h w) =
     (case workspaceFolders h of
        None \<Rightarrow> None
      | Some folders \<Rightarrow>
          let acc = fold (scanAcc h w) folders \<lparr>projectRoot = [], engineRoot = [], projectName = []\<rparr>
          in if projectRoot acc \<noteq> [] \<and> engineRoot acc \<noteq> [] \<and> projectName acc \<noteq> []
             then Some acc else None)"
proof (cases "workspaceFolders h")
  case None
  then show ?thesis by (simp add: getWorkspacePaths_def)
next
  case (Some folders)
  have "fst (fold (scanFolder h) folders (\<lparr>projectRoot = [], engineRoot = [], projectName = []\<rparr>, w))
      = fold (scanAcc h w) folders \<lparr>projectRoot = [], engineRoot = [], projectName = []\<rparr>"
    using fold_scanFolder [of w w h folders] by simp
  then show ?thesis
    by (simp add: getWorkspacePaths_def Some Let_def case_prod_beta)
qed

lemma getWorkspacePaths_snd:
  "nodes (snd (getWorkspacePaths h w)) = nodes w \<and>
   read_denied (snd (getWorkspacePaths h w)) = read_denied w \<and>
   write_denied (snd (getWorkspacePaths h w)) = write_denied w"
proof (cases "workspaceFolders h")
  case None
  then show ?thesis by (simp add: getWorkspacePaths_def)
next
  case (Some folders)
  show ?thesis
    using fold_scanFolder [of w w h folders "\<lparr>projectRoot = [], engineRoot = [], projectName = []\<rparr>"]
    by (simp add: getWorkspacePaths_def Some Let_def case_prod_beta)
qed

text \<open>
  Claim C4. Path resolution returns a result exactly when the scan found a project
  descriptor (which gives the project root and the project name) in some workspace folder
  and the engine marker script below some workspace folder, each in a folder that could be
  listed. In particular it returns nothing for workspace folders of which none lists a
  descriptor, and for workspace folders of which none holds the marker script.
\<close>

theorem getWorkspacePaths_found_iff:
  "(fst (getWorkspacePaths h w) \<noteq> None \<longleftrightarrow>
      (\<exists>folders. workspaceFolders h = Some folders \<and>
         (\<exists>f \<in> set folders. \<exists>files. readdirSync w f = Inr files \<and>
             (\<exists>n \<in> set files. suffix ''.uproject'' n)) \<and>
         (\<exists>f \<in> set folders. \<exists>files. readdirSync w f = Inr files \<and>
             existsSync w (path_join h [f, ''Engine'', ''Build'', ''BatchFiles'', ''Build.bat''])))) \<and>
   (\<forall>folders. workspaceFolders h = Some folders \<and>
       ((\<forall>f \<in> set folders. \<forall>files. readdirSync w f = Inr files \<longrightarrow>
            (\<forall>n \<in> set files. \<not> suffix ''.uproject'' n)) \<or>
        (\<forall>f \<in> set folders.
            \<not> existsSync w (path_join h [f, ''Engine'', ''Build'', ''BatchFiles'', ''Build.bat''])))
       \<longrightarrow> fst (getWorkspacePaths h w) = None)"
proof -
  let ?init = "\<lparr>projectRoot = [], engineRoot = [], projectName = []\<rparr>"
  have main: "fst (getWorkspacePaths h w) \<noteq> None \<longleftrightarrow>
      (\<exists>f \<in> set folders. descriptorOf w f \<noteq> None) \<and> (\<exists>f \<in> set folders. hasMarker h w f)"
    if ws: "workspaceFolders h = Some folders" for folders
  proof -
    let ?acc = "fold (scanAcc h w) folders ?init"
    have p: "projectRoot ?acc \<noteq> [] \<and> projectName ?acc \<noteq> [] \<longleftrightarrow> (\<exists>f \<in> set folders. descriptorOf w f \<noteq> None)"
    proof (cases "\<exists>f \<in> set folders. descriptorOf w f \<noteq> None")
      case True
      then obtain pre f post where s: "folders = pre @ f # post" "descriptorOf w f \<noteq> None"
        "\<forall>g \<in> set post. \<not> descriptorOf w g \<noteq> None"
        using split_list_last_prop [of folders "\<lambda>f. descriptorOf w f \<noteq> None"] by blast
      then obtain u where u: "descriptorOf w f = Some u" by blast
      have "f \<noteq> []" "u \<noteq> []"
        using u readdirSync_nonempty [of w f] unfolding descriptorOf_Some by auto
      then show ?thesis
        using fold_scanAcc_last_descriptor [OF u, of post h pre ?init] s True
        by (simp add: path_parse_name_nonempty)
    next
      case False
      then show ?thesis
        using fold_scanAcc_no_descriptor [of folders w h ?init] by simp
    qed
    have e: "engineRoot ?acc \<noteq> [] \<longleftrightarrow> (\<exists>f \<in> set folders. hasMarker h w f)"
    proof (cases "\<exists>f \<in> set folders. hasMarker h w f")
      case True
      then obtain pre f post where s: "folders = pre @ f # post" "hasMarker h w f"
        "\<forall>g \<in> set post. \<not> hasMarker h w g"
        using split_list_last_prop [of folders "\<lambda>f. hasMarker h w f"] by blast
      have "f \<noteq> []"
        using s(2) readdirSync_nonempty [of w f] unfolding hasMarker_iff by auto
      then show ?thesis
        using fold_scanAcc_last_marker [OF s(2) s(3), of pre ?init] s True by simp
    next
      case False
      then show ?thesis
        using fold_scanAcc_no_marker [of folders h w ?init] by simp
    qed
    show ?thesis
      unfolding getWorkspacePaths_fst ws using p e by (auto simp: Let_def)
  qed
  have d: "descriptorOf w f \<noteq> None \<longleftrightarrow>
        (\<exists>files. readdirSync w f = Inr files \<and> (\<exists>n \<in> set files. suffix ''.uproject'' n))" for f
    unfolding descriptorOf_None by blast
  have first: "fst (getWorkspacePaths h w) \<noteq> None \<longleftrightarrow>
      (\<exists>folders. workspaceFolders h = Some folders \<and>
         (\<exists>f \<in> set folders. \<exists>files. readdirSync w f = Inr files \<and>
             (\<exists>n \<in> set files. suffix ''.uproject'' n)) \<and>
         (\<exists>f \<in> set folders. \<exists>files. readdirSync w f = Inr files \<and>
             existsSync w (path_join h [f, ''Engine'', ''Build'', ''BatchFiles'', ''Build.bat''])))"
  proof (cases "workspaceFolders h")
    case None
    then show ?thesis by (simp add: getWorkspacePaths_fst)
  next
    case (Some folders)
    show ?thesis
      unfolding main [OF Some] d hasMarker_iff using Some by auto
  qed
  have second: "fst (getWorkspacePaths h w) = None"
    if "workspaceFolders h = Some folders"
      and "(\<forall>f \<in> set folders. \<forall>files. readdirSync w f = Inr files \<longrightarrow>
            (\<forall>n \<in> set files. \<not> suffix ''.uproject'' n)) \<or>
        (\<forall>f \<in> set folders.
            \<not> existsSync w (path_join h [f, ''Engine'', ''Build'', ''BatchFiles'', ''Build.bat'']))"
    for folders
  proof (rule ccontr)
    assume "fst (getWorkspacePaths h w) \<noteq> None"
    then show False using first that by fastforce
  qed
  show ?thesis
    using first second by blast
qed

theorem getWorkspacePaths_found_iff_witness:
  "fst (getWorkspacePaths demoHost demoWorld) \<noteq> None \<and>
   fst (getWorkspacePaths (demoHost\<lparr>workspaceFolders := Some [''/proj'']\<rparr>) demoWorld) = None"
proof -
  have p: "readdirSync demoWorld ''/proj'' = Inr [''Game.uproject'', ''Source'']"
    by code_simp
  have e: "readdirSync demoWorld ''/ue'' = Inr [''Engine'']"
    by code_simp
  have m: "existsSync demoWorld
             (path_join demoHost [''/ue'', ''Engine'', ''Build'', ''BatchFiles'', ''Build.bat''])"
    by code_simp
  have s: "suffix ''.uproject'' ''Game.uproject''"
    by code_simp
  have w: "workspaceFolders demoHost = Some [''/proj'', ''/ue'']"
    by (simp add: demoHost_def)
  have n: "\<not> existsSync demoWorld
             (path_join (demoHost\<lparr>workspaceFolders := Some [''/proj'']\<rparr>)
                [''/proj'', ''Engine'', ''Build'', ''BatchFiles'', ''Build.bat''])"
    by code_simp
  have "fst (getWorkspacePaths demoHost demoWorld) \<noteq> None"
    using getWorkspacePaths_found_iff [of demoHost demoWorld] p e m s w by auto
  moreover have "fst (getWorkspacePaths (demoHost\<lparr>workspaceFolders := Some [''/proj'']\<rparr>) demoWorld) = None"
    using getWorkspacePaths_found_iff [of "demoHost\<lparr>workspaceFolders := Some [''/proj'']\<rparr>" demoWorld] n
    by simp
  ultimately show ?thesis by simp
qed

text \<open>
  Claim C5, as stated, fails: two descriptors in one folder, and the name comes from the
  first of them, not from the last one scanned.
\<close>

theorem getWorkspacePaths_last_descriptor_counterexample:
  "descriptorsScanned demoHost twoDescriptorsWorld = [''Alpha.uproject'', ''Beta.uproject''] \<and>
   path_parse_name (last (descriptorsScanned demoHost twoDescriptorsWorld)) = ''Beta'' \<and>
   fst (getWorkspacePaths demoHost twoDescriptorsWorld) =
     Some \<lparr>projectRoot = ''/proj'', engineRoot = ''/ue'', projectName = ''Alpha''\<rparr>"
  by code_simp

text \<open>
  Claim C5, amended. When path resolution returns a result, its project root is the last
  workspace folder, in scan order, whose listing holds a descriptor, and its project name
  comes from the first descriptor of that listing: across folders the last one wins,
  within a folder the first one.
\<close>

theorem getWorkspacePaths_last_folder_first_descriptor:
  assumes "fst (getWorkspacePaths h w) = Some p"
  shows "\<exists>before folder after names1 u names2.
           workspaceFolders h = Some (before @ folder # after) \<and>
           readdirSync w folder = Inr (names1 @ u # names2) \<and>
           suffix ''.uproject'' u \<and>
           (\<forall>n \<in> set names1. \<not> suffix ''.uproject'' n) \<and>
           (\<forall>g \<in> set after. \<forall>files. readdirSync w g = Inr files \<longrightarrow>
               (\<forall>n \<in> set files. \<not> suffix ''.uproject'' n)) \<and>
           projectRoot p = folder \<and>
           projectName p = path_parse_name u"
proof -
  let ?init = "\<lparr>projectRoot = [], engineRoot = [], projectName = []\<rparr>"
  from assms obtain folders where ws: "workspaceFolders h = Some folders"
    by (cases "workspaceFolders h") (auto simp: getWorkspacePaths_fst)
  let ?acc = "fold (scanAcc h w) folders ?init"
  from assms ws have p: "p = ?acc" and ne: "projectRoot ?acc \<noteq> []"
    by (auto simp: getWorkspacePaths_fst Let_def split: if_splits)
  have "\<exists>f \<in> set folders. descriptorOf w f \<noteq> None"
  proof (rule ccontr)
    assume "\<not> (\<exists>f \<in> set folders. descriptorOf w f \<noteq> None)"
    then have "projectRoot ?acc = []"
      using fold_scanAcc_no_descriptor [of folders w h ?init] by simp
    with ne show False by simp
  qed
  then obtain before folder after where s: "folders = before @ folder # after"
    "descriptorOf w folder \<noteq> None" "\<forall>g \<in> set after. \<not> descriptorOf w g \<noteq> None"
    using split_list_last_prop [of folders "\<lambda>f. descriptorOf w f \<noteq> None"] by blast
  then obtain u where u: "descriptorOf w folder = Some u" by blast
  then obtain names1 names2 where n: "readdirSync w folder = Inr (names1 @ u # names2)"
    "suffix ''.uproject'' u" "\<forall>n \<in> set names1. \<not> suffix ''.uproject'' n"
    unfolding descriptorOf_Some by blast
  have a: "\<forall>g \<in> set after. descriptorOf w g = None" using s(3) by simp
  then have a': "\<forall>g \<in> set after. \<forall>files. readdirSync w g = Inr files \<longrightarrow>
               (\<forall>n \<in> set files. \<not> suffix ''.uproject'' n)"
    unfolding descriptorOf_None .
  have "projectRoot p = folder \<and> projectName p = path_parse_name u"
    using fold_scanAcc_last_descriptor [OF u a, of h before ?init] p s(1) by simp
  with ws s(1) n a' show ?thesis by blast
qed

theorem getWorkspacePaths_last_folder_first_descriptor_witness:
  "\<exists>before folder after names1 u names2.
      workspaceFolders demoHost = Some (before @ folder # after) \<and>
      readdirSync twoProjectsWorld folder = Inr (names1 @ u # names2) \<and>
      suffix ''.uproject'' u \<and>
      (\<forall>n \<in> set names1. \<not> suffix ''.uproject'' n) \<and>
      (\<forall>g \<in> set after. \<forall>files. readdirSync twoProjectsWorld g = Inr files \<longrightarrow>
          (\<forall>n \<in> set files. \<not> suffix ''.uproject'' n)) \<and>
      ''/ue'' = folder \<and>
      ''Gamma'' = path_parse_name u"
proof -
  have r: "fst (getWorkspacePaths demoHost twoProjectsWorld) =
             Some \<lparr>projectRoot = ''/ue'', engineRoot = ''/ue'', projectName = ''Gamma''\<rparr>"
    by code_simp
  show ?thesis
    using getWorkspacePaths_last_folder_first_descriptor [OF r] by simp
qed

section \<open>Facts about the file system\<close>

lemma writeFileSync_canWrite:
  "writeFileSync p c w = (if canWrite w p then Inr (w\<lparr>nodes := (nodes w)(p \<mapsto> File c)\<rparr>) else Inl IOError)"
  by (auto simp: writeFileSync_def canWrite_def split: option.splits node.splits)

lemma canWrite_after_write:
  "canWrite w q \<Longrightarrow> canWrite (w\<lparr>nodes := (nodes w)(q \<mapsto> File c)\<rparr>) p = canWrite w p"
  by (auto simp: canWrite_def split: option.splits node.splits)

lemma canWrite_emit [simp]: "canWrite (emit e w) p = canWrite w p"
  by (simp add: canWrite_def emit_def)

lemma getWorkspacePaths_same_files:
  assumes "getWorkspacePaths h w = (r, w1)"
  shows "nodes w1 = nodes w \<and> read_denied w1 = read_denied w \<and> write_denied w1 = write_denied w"
  using getWorkspacePaths_snd [of h w] assms by simp

lemma existsSync_cong: "nodes w' = nodes w \<Longrightarrow> existsSync w' p = existsSync w p"
  by (simp add: existsSync_def node_at_def)

lemma readFileSync_cong:
  "nodes w' = nodes w \<Longrightarrow> read_denied w' = read_denied w \<Longrightarrow> readFileSync w' p = readFileSync w p"
  by (simp add: readFileSync_def node_at_def split: option.splits node.splits)

lemma canWrite_cong:
  "nodes w' = nodes w \<Longrightarrow> write_denied w' = write_denied w \<Longrightarrow> canWrite w' p = canWrite w p"
  by (simp add: canWrite_def)

lemma copyFileSync_result:
  "copyFileSync src dest w =
     (case readFileSync w src of
        Inl e \<Rightarrow> Inl e
      | Inr c \<Rightarrow> if canWrite w dest then Inr (w\<lparr>nodes := (nodes w)(dest \<mapsto> File c)\<rparr>) else Inl IOError)"
  by (simp add: copyFileSync_def writeFileSync_canWrite split: sum.splits)

lemma readFileSync_Inr: "readFileSync w p = Inr c \<Longrightarrow> nodes w p = Some (File c)"
  by (auto simp: readFileSync_def node_at_def split: option.splits node.splits if_splits)

section \<open>Phantom-error detection\<close>

lemma errorCode_eq:
  assumes "\<forall>n. number_to_string h n \<noteq> s" and "s \<noteq> []"
  shows "errorCode h c = s \<longleftrightarrow> (c = CodeString s \<or> c = CodeObject (ValueString s))"
  using assms by (auto simp: errorCode_def split: diag_code.splits code_value.splits)

text \<open>
  Claim C6. \<open>hasPhantomErrors\<close> is a function of the diagnostics that the host reports
  for the file, and of nothing else: it neither reads nor changes the world. It is true
  exactly when one diagnostic has the severity \<open>Error\<close> and the code
  \<^verbatim>\<open>ovl_deleted_init\<close> or \<^verbatim>\<open>missing_type_specifier\<close>, given as a string or as the
  \<^verbatim>\<open>value\<close> of an object. So it is false when there is no diagnostic, when none is an
  error, and when no error has one of the two codes. (\<^verbatim>\<open>String\<close> of a number is never one of
  the two codes: the hypothesis says so of the host.)
\<close>

theorem hasPhantomErrors_iff:
  assumes "\<forall>n. number_to_string h n \<noteq> ''ovl_deleted_init'' \<and>
               number_to_string h n \<noteq> ''missing_type_specifier''"
  shows "(hasPhantomErrors h u \<longleftrightarrow>
            (\<exists>d \<in> set (getDiagnostics h u). severity d = Error \<and>
                (code d = CodeString ''ovl_deleted_init'' \<or>
                 code d = CodeObject (ValueString ''ovl_deleted_init'') \<or>
                 code d = CodeString ''missing_type_specifier'' \<or>
                 code d = CodeObject (ValueString ''missing_type_specifier'')))) \<and>
         (getDiagnostics h u = [] \<longrightarrow> \<not> hasPhantomErrors h u) \<and>
         ((\<forall>d \<in> set (getDiagnostics h u). severity d \<noteq> Error) \<longrightarrow> \<not> hasPhantomErrors h u) \<and>
         ((\<forall>d \<in> set (getDiagnostics h u).
              code d \<noteq> CodeString ''ovl_deleted_init'' \<and>
              code d \<noteq> CodeObject (ValueString ''ovl_deleted_init'') \<and>
              code d \<noteq> CodeString ''missing_type_specifier'' \<and>
              code d \<noteq> CodeObject (ValueString ''missing_type_specifier''))
            \<longrightarrow> \<not> hasPhantomErrors h u)"
proof -
  have a: "errorCode h c = ''ovl_deleted_init'' \<longleftrightarrow>
        (c = CodeString ''ovl_deleted_init'' \<or> c = CodeObject (ValueString ''ovl_deleted_init''))" for c
    using assms by (intro errorCode_eq) auto
  have b: "errorCode h c = ''missing_type_specifier'' \<longleftrightarrow>
        (c = CodeString ''missing_type_specifier'' \<or>
         c = CodeObject (ValueString ''missing_type_specifier''))" for c
    using assms by (intro errorCode_eq) auto
  have main: "hasPhantomErrors h u \<longleftrightarrow>
            (\<exists>d \<in> set (getDiagnostics h u). severity d = Error \<and>
                (code d = CodeString ''ovl_deleted_init'' \<or>
                 code d = CodeObject (ValueString ''ovl_deleted_init'') \<or>
                 code d = CodeString ''missing_type_specifier'' \<or>
                 code d = CodeObject (ValueString ''missing_type_specifier'')))"
    unfolding hasPhantomErrors_def list_ex_iff a b by blast
  have "getDiagnostics h u = [] \<longrightarrow> \<not> hasPhantomErrors h u"
    by (simp add: hasPhantomErrors_def)
  moreover have "(\<forall>d \<in> set (getDiagnostics h u). severity d \<noteq> Error) \<longrightarrow> \<not> hasPhantomErrors h u"
    unfolding main by blast
  moreover have "(\<forall>d \<in> set (getDiagnostics h u).
              code d \<noteq> CodeString ''ovl_deleted_init'' \<and>
              code d \<noteq> CodeObject (ValueString ''ovl_deleted_init'') \<and>
              code d \<noteq> CodeString ''missing_type_specifier'' \<and>
              code d \<noteq> CodeObject (ValueString ''missing_type_specifier''))
            \<longrightarrow> \<not> hasPhantomErrors h u"
    unfolding main by blast
  ultimately show ?thesis using main by blast
qed

theorem hasPhantomErrors_iff_witness:
  "hasPhantomErrors
     (demoHost\<lparr>getDiagnostics := (\<lambda>u.
        [\<lparr>severity = Warning, code = CodeString ''ovl_deleted_init''\<rparr>,
         \<lparr>severity = Error, code = CodeNumber 2304\<rparr>,
         \<lparr>severity = Error, code = CodeObject (ValueNumber 7)\<rparr>,
         \<lparr>severity = Error, code = CodeObject (ValueString ''missing_type_specifier'')\<rparr>])\<rparr>)
     ''file:///proj/Source/Actor.h'' \<and>
   \<not> hasPhantomErrors
     (demoHost\<lparr>getDiagnostics := (\<lambda>u.
        [\<lparr>severity = Warning, code = CodeString ''ovl_deleted_init''\<rparr>,
         \<lparr>severity = Error, code = CodeString ''undeclared_var_use''\<rparr>])\<rparr>)
     ''file:///proj/Source/Actor.h''"
proof -
  have n: "\<forall>n. number_to_string (demoHost\<lparr>getDiagnostics := g\<rparr>) n \<noteq> ''ovl_deleted_init'' \<and>
               number_to_string (demoHost\<lparr>getDiagnostics := g\<rparr>) n \<noteq> ''missing_type_specifier''" for g
    using showInt_not_code by (simp add: demoHost_def)
  show ?thesis
    using hasPhantomErrors_iff [OF n, of _ "''file:///proj/Source/Actor.h''"]
    by simp
qed

section \<open>Compile-database sync\<close>

lemma sync_unfold:
  assumes "getWorkspacePaths h w = (Some p, w1)"
  shows "syncCompileCommands h w =
     (if existsSync w (path_join h [engineRoot p, ''compile_commands.json'']) then
        (case readFileSync w (path_join h [engineRoot p, ''compile_commands.json'']) of
           Inl e \<Rightarrow> emit (ShowErrorMessage ''Failed to copy compile_commands.json. Check file permissions.'') w1
         | Inr c \<Rightarrow>
             if canWrite w (path_join h [projectRoot p, ''compile_commands.json'']) then
               (if command_resolves h ''clangd.restart'' then
                  emit (ExecuteCommand ''clangd.restart'')
                    (emit (ShowInformationMessage ''Synced compile_commands.json from Engine to Project.'')
                       (w1\<lparr>nodes := (nodes w)(path_join h [projectRoot p, ''compile_commands.json''] \<mapsto> File c)\<rparr>))
                else
                  emit (ShowErrorMessage ''Failed to copy compile_commands.json. Check file permissions.'')
                   (emit (ExecuteCommand ''clangd.restart'')
                    (emit (ShowInformationMessage ''Synced compile_commands.json from Engine to Project.'')
                       (w1\<lparr>nodes := (nodes w)(path_join h [projectRoot p, ''compile_commands.json''] \<mapsto> File c)\<rparr>))))
             else emit (ShowErrorMessage ''Failed to copy compile_commands.json. Check file permissions.'') w1)
      else emit (ShowWarningMessage ''compile_commands.json not found in Engine root. Did the generate task fail?'') w1)"
proof -
  let ?src = "path_join h [engineRoot p, ''compile_commands.json'']"
  let ?dst = "path_join h [projectRoot p, ''compile_commands.json'']"
  note same = getWorkspacePaths_same_files [OF assms]
  have ex: "existsSync w1 ?src = existsSync w ?src"
    by (rule existsSync_cong) (simp add: same)
  have rd: "readFileSync w1 ?src = readFileSync w ?src"
    by (rule readFileSync_cong) (simp_all add: same)
  have cw: "canWrite w1 ?dst = canWrite w ?dst"
    by (rule canWrite_cong) (simp_all add: same)
  have n: "nodes w1 = nodes w" using same by simp
  show ?thesis
    unfolding syncCompileCommands_def assms prod.case option.case Let_def ex copyFileSync_result rd cw n
    by (simp split: sum.splits)
qed

text \<open>
  Claim C8. Let the paths resolve. If the database exists at the engine-root path and the
  copy succeeds, the destination under the project root afterwards holds the content of the
  source, and the restart of the language server is requested after the copy. If the source
  does not exist, no file changes and a warning is shown. If the copy fails, no file
  changes, an error is shown, and no restart is requested.
\<close>

theorem syncCompileCommands_cases:
  assumes "fst (getWorkspacePaths h w) = Some p"
  shows
   "(existsSync w (path_join h [engineRoot p, ''compile_commands.json'']) \<and>
     \<not> isl (copyFileSync (path_join h [engineRoot p, ''compile_commands.json''])
                (path_join h [projectRoot p, ''compile_commands.json'']) w)
     \<longrightarrow> (\<exists>c. nodes w (path_join h [engineRoot p, ''compile_commands.json'']) = Some (File c) \<and>
              nodes (syncCompileCommands h w) (path_join h [engineRoot p, ''compile_commands.json''])
                = Some (File c) \<and>
              nodes (syncCompileCommands h w) (path_join h [projectRoot p, ''compile_commands.json''])
                = Some (File c)) \<and>
          events (syncCompileCommands h w) =
            events (snd (getWorkspacePaths h w)) @
            [ShowInformationMessage ''Synced compile_commands.json from Engine to Project.'',
             ExecuteCommand ''clangd.restart''] @
            (if command_resolves h ''clangd.restart'' then []
             else [ShowErrorMessage ''Failed to copy compile_commands.json. Check file permissions.''])) \<and>
    (\<not> existsSync w (path_join h [engineRoot p, ''compile_commands.json''])
     \<longrightarrow> nodes (syncCompileCommands h w) = nodes w \<and>
          events (syncCompileCommands h w) =
            events (snd (getWorkspacePaths h w)) @
            [ShowWarningMessage ''compile_commands.json not found in Engine root. Did the generate task fail?'']) \<and>
    (existsSync w (path_join h [engineRoot p, ''compile_commands.json'']) \<and>
     isl (copyFileSync (path_join h [engineRoot p, ''compile_commands.json''])
            (path_join h [projectRoot p, ''compile_commands.json'']) w)
     \<longrightarrow> nodes (syncCompileCommands h w) = nodes w \<and>
          events (syncCompileCommands h w) =
            events (snd (getWorkspacePaths h w)) @
            [ShowErrorMessage ''Failed to copy compile_commands.json. Check file permissions.''])"
proof -
  let ?src = "path_join h [engineRoot p, ''compile_commands.json'']"
  let ?dst = "path_join h [projectRoot p, ''compile_commands.json'']"
  obtain w1 where g: "getWorkspacePaths h w = (Some p, w1)"
    using assms by (cases "getWorkspacePaths h w") simp
  note u = sync_unfold [OF g]
  have w1: "snd (getWorkspacePaths h w) = w1" using g by simp
  show ?thesis
  proof (cases "existsSync w ?src")
    case False
    then show ?thesis
      unfolding u w1 using getWorkspacePaths_same_files [OF g] by (simp add: emit_def)
  next
    case True
    show ?thesis
    proof (cases "readFileSync w ?src")
      case (Inl e)
      then have "isl (copyFileSync ?src ?dst w)" by (simp add: copyFileSync_result)
      then show ?thesis
        unfolding u w1 using True Inl getWorkspacePaths_same_files [OF g] by (simp add: emit_def)
    next
      case (Inr c)
      note n = readFileSync_Inr [OF Inr]
      show ?thesis
      proof (cases "canWrite w ?dst")
        case False
        then have "isl (copyFileSync ?src ?dst w)" by (simp add: copyFileSync_result Inr)
        then show ?thesis
          unfolding u w1 using True Inr False getWorkspacePaths_same_files [OF g]
          by (simp add: emit_def)
      next
        case cwT: True
        then have "\<not> isl (copyFileSync ?src ?dst w)" by (simp add: copyFileSync_result Inr)
        then show ?thesis
          unfolding u w1 using True Inr cwT n by (simp add: emit_def)
      qed
    qed
  qed
qed

theorem syncCompileCommands_cases_witness:
  "nodes (syncCompileCommands demoHost demoWorld) ''/proj/compile_commands.json'' = Some (File ''[]'') \<and>
   events (syncCompileCommands demoHost demoWorld) =
     [ShowInformationMessage ''Synced compile_commands.json from Engine to Project.'',
      ExecuteCommand ''clangd.restart'']"
proof -
  have g: "fst (getWorkspacePaths demoHost demoWorld) = Some demoPaths"
    by code_simp
  have e: "existsSync demoWorld (path_join demoHost [engineRoot demoPaths, ''compile_commands.json''])"
    by code_simp
  have c: "\<not> isl (copyFileSync (path_join demoHost [engineRoot demoPaths, ''compile_commands.json''])
                (path_join demoHost [projectRoot demoPaths, ''compile_commands.json'']) demoWorld)"
    by code_simp
  have s: "nodes demoWorld (path_join demoHost [engineRoot demoPaths, ''compile_commands.json''])
             = Some (File ''[]'')"
    by code_simp
  have j: "path_join demoHost [projectRoot demoPaths, ''compile_commands.json'']
             = ''/proj/compile_commands.json''"
    by code_simp
  have r: "command_resolves demoHost ''clangd.restart''"
    by (simp add: demoHost_def)
  have v: "events (snd (getWorkspacePaths demoHost demoWorld)) = []"
    by code_simp
  show ?thesis
    using syncCompileCommands_cases [OF g] e c s r v unfolding j by auto
qed

section \<open>Config install\<close>

text \<open>
  Claim C9, as stated, fails: with every write allowed, the format template is in the
  project root afterwards and not in the engine root, and no warning tells of a failed
  attempt.
\<close>

theorem installConfigs_engine_format_counterexample:
  "nodes (installConfigs demoHost demoPaths demoWorld)
     (path_join demoHost [engineRoot demoPaths, ''.clang-format'']) = None \<and>
   nodes (installConfigs demoHost demoPaths demoWorld)
     (path_join demoHost [engineRoot demoPaths, ''.clangd'']) = Some (File ''CompileFlags:'') \<and>
   nodes (installConfigs demoHost demoPaths demoWorld)
     (path_join demoHost [projectRoot demoPaths, ''.clang-format'']) = Some (File ''BasedOnStyle: LLVM'') \<and>
   events (installConfigs demoHost demoPaths demoWorld) = []"
  by code_simp

text \<open>
  Claim C9, amended. Once both templates are read, and where the two files of the project
  root can be written, config install writes each template verbatim to its file in the
  project root, whatever was there, and attempts the same write into the engine root for
  the \<^verbatim>\<open>.clangd\<close> template only; when that write fails, the only effect is a warning.
  No path other than these three is touched: the \<^verbatim>\<open>.clang-format\<close> of the engine root is
  left as it was, unless its path is one of the three (as when the engine root is the
  project root).
\<close>

theorem installConfigs_writes:
  assumes "readFileSync w (asAbsolutePath h (path_join h [''resources'', ''.clangd''])) = Inr clangdContent"
    and "readFileSync w (asAbsolutePath h (path_join h [''resources'', ''.clang-format''])) = Inr formatContent"
    and "canWrite w (path_join h [projectRoot p, ''.clangd''])"
    and "canWrite w (path_join h [projectRoot p, ''.clang-format''])"
  shows "installConfigs h p w =
     (if canWrite w (path_join h [engineRoot p, ''.clangd''])
      then w\<lparr>nodes := (nodes w)
             (path_join h [projectRoot p, ''.clangd''] \<mapsto> File clangdContent,
              path_join h [projectRoot p, ''.clang-format''] \<mapsto> File formatContent,
              path_join h [engineRoot p, ''.clangd''] \<mapsto> File clangdContent)\<rparr>
      else emit (ShowWarningMessage ''Could not write .clangd to Engine root. Run VSCode as Admin if needed.'')
             (w\<lparr>nodes := (nodes w)
                (path_join h [projectRoot p, ''.clangd''] \<mapsto> File clangdContent,
                 path_join h [projectRoot p, ''.clang-format''] \<mapsto> File formatContent)\<rparr>)) \<and>
     (\<forall>q. q \<noteq> path_join h [projectRoot p, ''.clangd''] \<and>
          q \<noteq> path_join h [projectRoot p, ''.clang-format''] \<and>
          q \<noteq> path_join h [engineRoot p, ''.clangd'']
          \<longrightarrow> nodes (installConfigs h p w) q = nodes w q)"
proof -
  let ?pc = "path_join h [projectRoot p, ''.clangd'']"
  let ?pf = "path_join h [projectRoot p, ''.clang-format'']"
  let ?ec = "path_join h [engineRoot p, ''.clangd'']"
  let ?w1 = "w\<lparr>nodes := (nodes w)(?pc \<mapsto> File clangdContent)\<rparr>"
  let ?w2 = "?w1\<lparr>nodes := (nodes ?w1)(?pf \<mapsto> File formatContent)\<rparr>"
  have 1: "createFile ?pc clangdContent w = Inr ?w1"
    using assms(3) by (simp add: createFile_def writeFileSync_canWrite)
  have c2: "canWrite ?w1 ?pf"
    using assms(3,4) by (simp add: canWrite_after_write)
  have 2: "createFile ?pf formatContent ?w1 = Inr ?w2"
    using c2 by (simp add: createFile_def writeFileSync_canWrite)
  have c3: "canWrite ?w2 ?ec = canWrite w ?ec"
    using canWrite_after_write [OF c2, of formatContent ?ec]
      canWrite_after_write [OF assms(3), of clangdContent ?ec] by simp
  have 3: "createFile ?ec clangdContent ?w2 =
        (if canWrite w ?ec then Inr (?w2\<lparr>nodes := (nodes ?w2)(?ec \<mapsto> File clangdContent)\<rparr>)
         else Inl IOError)"
    unfolding createFile_def writeFileSync_canWrite c3 ..
  have result: "installConfigs h p w =
     (if canWrite w ?ec
      then w\<lparr>nodes := (nodes w)
             (?pc \<mapsto> File clangdContent, ?pf \<mapsto> File formatContent, ?ec \<mapsto> File clangdContent)\<rparr>
      else emit (ShowWarningMessage ''Could not write .clangd to Engine root. Run VSCode as Admin if needed.'')
             (w\<lparr>nodes := (nodes w)(?pc \<mapsto> File clangdContent, ?pf \<mapsto> File formatContent)\<rparr>))"
    unfolding installConfigs_def Let_def assms(1,2) using 1 2 3 by simp
  have frame: "\<forall>q. q \<noteq> ?pc \<and> q \<noteq> ?pf \<and> q \<noteq> ?ec \<longrightarrow> nodes (installConfigs h p w) q = nodes w q"
    unfolding result by (simp add: emit_def)
  from result frame show ?thesis by blast
qed

theorem installConfigs_writes_witness:
  "installConfigs demoHost demoPaths lockedEngineWorld =
     emit (ShowWarningMessage ''Could not write .clangd to Engine root. Run VSCode as Admin if needed.'')
       (lockedEngineWorld\<lparr>nodes := (nodes lockedEngineWorld)
          (''/proj/.clangd'' \<mapsto> File ''CompileFlags:'',
           ''/proj/.clang-format'' \<mapsto> File ''BasedOnStyle: LLVM'')\<rparr>) \<and>
   path_join demoHost [engineRoot demoPaths, ''.clang-format''] = ''/ue/.clang-format'' \<and>
   nodes (installConfigs demoHost demoPaths lockedEngineWorld) ''/ue/.clang-format'' =
     nodes lockedEngineWorld ''/ue/.clang-format'' \<and>
   installConfigs demoHost \<lparr>projectRoot = ''/ue'', engineRoot = ''/ue'', projectName = ''Gamma''\<rparr>
       twoProjectsWorld =
     twoProjectsWorld\<lparr>nodes := (nodes twoProjectsWorld)
        (''/ue/.clangd'' \<mapsto> File ''CompileFlags:'',
         ''/ue/.clang-format'' \<mapsto> File ''BasedOnStyle: LLVM'',
         ''/ue/.clangd'' \<mapsto> File ''CompileFlags:'')\<rparr>"
proof -
  have 1: "readFileSync lockedEngineWorld (asAbsolutePath demoHost (path_join demoHost [''resources'', ''.clangd'']))
             = Inr ''CompileFlags:''"
    by code_simp
  have 2: "readFileSync lockedEngineWorld (asAbsolutePath demoHost (path_join demoHost [''resources'', ''.clang-format'']))
             = Inr ''BasedOnStyle: LLVM''"
    by code_simp
  have 3: "canWrite lockedEngineWorld (path_join demoHost [projectRoot demoPaths, ''.clangd''])"
    by code_simp
  have 4: "canWrite lockedEngineWorld (path_join demoHost [projectRoot demoPaths, ''.clang-format''])"
    by code_simp
  have 5: "\<not> canWrite lockedEngineWorld (path_join demoHost [engineRoot demoPaths, ''.clangd''])"
    by code_simp
  have j: "path_join demoHost [projectRoot demoPaths, ''.clangd''] = ''/proj/.clangd''"
    "path_join demoHost [projectRoot demoPaths, ''.clang-format''] = ''/proj/.clang-format''"
    "path_join demoHost [engineRoot demoPaths, ''.clangd''] = ''/ue/.clangd''"
    "path_join demoHost [engineRoot demoPaths, ''.clang-format''] = ''/ue/.clang-format''"
    by code_simp+
  note a = installConfigs_writes [OF 1 2 3 4]
  have first: "installConfigs demoHost demoPaths lockedEngineWorld =
     emit (ShowWarningMessage ''Could not write .clangd to Engine root. Run VSCode as Admin if needed.'')
       (lockedEngineWorld\<lparr>nodes := (nodes lockedEngineWorld)
          (''/proj/.clangd'' \<mapsto> File ''CompileFlags:'',
           ''/proj/.clang-format'' \<mapsto> File ''BasedOnStyle: LLVM'')\<rparr>)"
    using a [THEN conjunct1] 5 unfolding j by simp
  have second: "nodes (installConfigs demoHost demoPaths lockedEngineWorld) ''/ue/.clang-format'' =
     nodes lockedEngineWorld ''/ue/.clang-format''"
    using a [THEN conjunct2, rule_format, of "''/ue/.clang-format''"] unfolding j by simp
  let ?same = "\<lparr>projectRoot = ''/ue'', engineRoot = ''/ue'', projectName = ''Gamma''\<rparr>"
  have 6: "readFileSync twoProjectsWorld (asAbsolutePath demoHost (path_join demoHost [''resources'', ''.clangd'']))
             = Inr ''CompileFlags:''"
    by code_simp
  have 7: "readFileSync twoProjectsWorld (asAbsolutePath demoHost (path_join demoHost [''resources'', ''.clang-format'']))
             = Inr ''BasedOnStyle: LLVM''"
    by code_simp
  have 8: "canWrite twoProjectsWorld (path_join demoHost [projectRoot ?same, ''.clangd''])"
    by code_simp
  have 9: "canWrite twoProjectsWorld (path_join demoHost [projectRoot ?same, ''.clang-format''])"
    by code_simp
  have 10: "canWrite twoProjectsWorld (path_join demoHost [engineRoot ?same, ''.clangd''])"
    by code_simp
  have k: "path_join demoHost [projectRoot ?same, ''.clangd''] = ''/ue/.clangd''"
    "path_join demoHost [projectRoot ?same, ''.clang-format''] = ''/ue/.clang-format''"
    "path_join demoHost [engineRoot ?same, ''.clangd''] = ''/ue/.clangd''"
    by code_simp+
  have third: "installConfigs demoHost ?same twoProjectsWorld =
     twoProjectsWorld\<lparr>nodes := (nodes twoProjectsWorld)
        (''/ue/.clangd'' \<mapsto> File ''CompileFlags:'',
         ''/ue/.clang-format'' \<mapsto> File ''BasedOnStyle: LLVM'',
         ''/ue/.clangd'' \<mapsto> File ''CompileFlags:'')\<rparr>"
    using installConfigs_writes [OF 6 7 8 9, THEN conjunct1] 10 unfolding k by simp
  from first j(4) second third show ?thesis by blast
qed

section \<open>The save watcher\<close>

text \<open>What the handler does: with the flag on and the paths resolved, it triggers the
  compound task when the file name ends in \<^verbatim>\<open>.h\<close>, contains the joined path of the source
  folder anywhere, and has phantom errors.\<close>

lemma saveWatcher_triggers:
  "saveWatcher h doc w =
     (if config_get h ''autoFixOnSave'' then
        (case getWorkspacePaths h w of
           (None, w1) \<Rightarrow> w1
         | (Some p, w1) \<Rightarrow>
             if suffix ''.h'' (fileName doc) \<and>
                sublist (path_join h [projectRoot p, ''Source'']) (fileName doc) \<and>
                hasPhantomErrors h (uri doc)
             then triggerTask h TASK_COMPOUND w1 else w1)
      else w)"
  by (simp add: saveWatcher_def Let_def split: prod.splits option.splits)

text \<open>
  Claim C7 at a header that lies beside the source folder, not in it: the name
  \<^verbatim>\<open>/proj/SourceBackup/Actor.h\<close> contains \<^verbatim>\<open>/proj/Source\<close>, and the compound task is
  executed.
\<close>

theorem saveWatcher_outside_source_triggers:
  "events (saveWatcher phantomHost
            \<lparr>fileName = ''/proj/SourceBackup/Actor.h'', uri = ''file:///proj/SourceBackup/Actor.h''\<rparr>
            demoWorld) = [ExecuteTask TASK_COMPOUND] \<and>
   config_get phantomHost ''autoFixOnSave'' \<and>
   fst (getWorkspacePaths phantomHost demoWorld) =
     Some \<lparr>projectRoot = ''/proj'', engineRoot = ''/ue'', projectName = ''Game''\<rparr> \<and>
   path_join phantomHost [''/proj'', ''Source''] = ''/proj/Source'' \<and>
   \<not> prefix ''/proj/Source/'' ''/proj/SourceBackup/Actor.h''"
  by code_simp

section \<open>Task injection\<close>

subsection \<open>The update-or-add loop\<close>

lemma labelIs_Inl: "labelIs l t = Inl e \<longleftrightarrow> t = JNull \<and> e = TypeError"
  by (cases t) auto

lemma labelIs_nonnull: "t \<noteq> JNull \<Longrightarrow> labelIs l t = Inr (hasLabel l t)"
  by (cases t) (auto simp: hasLabel_def)

lemma hasLabel_unique: "hasLabel l t \<Longrightarrow> hasLabel k t \<Longrightarrow> l = k"
  by (cases t) (auto simp: hasLabel_def)

lemma taskObject_labelIs: "taskObject nt \<Longrightarrow> labelIs l nt = Inr (l = labelOf nt)"
  by (cases nt) (auto split: option.splits json.splits)

lemma taskObject_hasLabel: "taskObject nt \<Longrightarrow> hasLabel l nt \<longleftrightarrow> l = labelOf nt"
  by (simp add: hasLabel_def taskObject_labelIs)

lemma taskObject_nonnull: "taskObject nt \<Longrightarrow> nt \<noteq> JNull"
  by auto

lemma findIndex_Some_iff:
  "findIndex l ts = Inr (Some i) \<longleftrightarrow>
     i < length ts \<and> labelIs l (ts ! i) = Inr True \<and> (\<forall>j<i. labelIs l (ts ! j) = Inr False)"
proof (induction ts arbitrary: i)
  case Nil
  then show ?case by simp
next
  case (Cons t ts)
  show ?case
  proof (cases "labelIs l t")
    case (Inl e)
    then show ?thesis by (cases i) auto
  next
    case (Inr b)
    show ?thesis
    proof (cases b)
      case True
      with Inr show ?thesis by (cases i) auto
    next
      case False
      show ?thesis
      proof (cases i)
        case 0
        with Inr False show ?thesis by (auto split: sum.splits option.splits)
      next
        case (Suc k)
        have "findIndex l (t # ts) = Inr (Some (Suc k)) \<longleftrightarrow> findIndex l ts = Inr (Some k)"
          using Inr False by (auto split: sum.splits option.splits)
        also have "\<dots> \<longleftrightarrow> k < length ts \<and> labelIs l (ts ! k) = Inr True \<and>
                      (\<forall>j<k. labelIs l (ts ! j) = Inr False)"
          by (rule Cons.IH)
        also have "\<dots> \<longleftrightarrow> Suc k < length (t # ts) \<and> labelIs l ((t # ts) ! Suc k) = Inr True \<and>
                      (\<forall>j<Suc k. labelIs l ((t # ts) ! j) = Inr False)"
          using Inr False by (auto simp: less_Suc_eq_0_disj)
        finally show ?thesis using Suc by simp
      qed
    qed
  qed
qed

lemma findIndex_None_iff:
  "findIndex l ts = Inr None \<longleftrightarrow> (\<forall>t \<in> set ts. labelIs l t = Inr False)"
proof (induction ts)
  case Nil
  then show ?case by simp
next
  case (Cons t ts)
  show ?case
  proof (cases "labelIs l t")
    case (Inl e)
    then show ?thesis by auto
  next
    case (Inr b)
    with Cons show ?thesis by (cases b) (auto split: sum.splits option.splits)
  qed
qed

lemma updateOrAdd_upsert:
  "updateOrAdd nt ts = Inr r \<Longrightarrow> r = upsert (labelOf nt) nt ts"
proof (induction ts arbitrary: r)
  case Nil
  then show ?case by (simp add: updateOrAdd_def)
next
  case (Cons t ts)
  show ?case
  proof (cases "labelIs (labelOf nt) t")
    case (Inl e)
    with Cons.prems show ?thesis by (simp add: updateOrAdd_def)
  next
    case (Inr b)
    show ?thesis
    proof (cases b)
      case True
      with Inr Cons.prems show ?thesis by (auto simp: updateOrAdd_def hasLabel_def)
    next
      case False
      from Cons.prems Inr False obtain r' where r': "updateOrAdd nt ts = Inr r'" "r = t # r'"
        by (auto simp: updateOrAdd_def split: sum.splits option.splits)
      from Cons.IH [OF r'(1)] r'(2) Inr False show ?thesis
        by (simp add: hasLabel_def)
    qed
  qed
qed

lemma updateOrAdd_total:
  "JNull \<notin> set ts \<Longrightarrow> updateOrAdd nt ts = Inr (upsert (labelOf nt) nt ts)"
proof (induction ts)
  case Nil
  then show ?case by (simp add: updateOrAdd_def)
next
  case (Cons t ts)
  then have "t \<noteq> JNull" by auto
  then have t: "labelIs (labelOf nt) t = Inr (hasLabel (labelOf nt) t)"
    by (rule labelIs_nonnull)
  from Cons have ih: "updateOrAdd nt ts = Inr (upsert (labelOf nt) nt ts)" by simp
  show ?case
  proof (cases "hasLabel (labelOf nt) t")
    case True
    with t show ?thesis by (simp add: updateOrAdd_def)
  next
    case False
    with t ih show ?thesis
      by (auto simp: updateOrAdd_def split: sum.splits option.splits)
  qed
qed

lemma upsert_nonnull: "nt \<noteq> JNull \<Longrightarrow> JNull \<notin> set ts \<Longrightarrow> JNull \<notin> set (upsert l nt ts)"
  by (induction ts) auto

lemma upsert_filter_other:
  assumes "taskObject nt" and "l \<noteq> labelOf nt"
  shows "filter (hasLabel l) (upsert (labelOf nt) nt ts) = filter (hasLabel l) ts"
  using assms by (induction ts) (auto simp: taskObject_hasLabel dest: hasLabel_unique)

lemma upsert_count_own:
  assumes "taskObject nt"
  shows "length (filter (hasLabel (labelOf nt)) (upsert (labelOf nt) nt ts)) =
           (if \<exists>t \<in> set ts. hasLabel (labelOf nt) t
            then length (filter (hasLabel (labelOf nt)) ts) else 1)"
  using assms by (induction ts) (auto simp: taskObject_hasLabel)

lemma upsert_keeps:
  "t \<in> set ts \<Longrightarrow> \<not> hasLabel l t \<Longrightarrow> t \<in> set (upsert l nt ts)"
  by (induction ts) auto

lemma settled_iff:
  assumes "taskObject nt"
  shows "updateOrAdd nt ts = Inr ts \<longleftrightarrow>
           (\<exists>i. findIndex (labelOf nt) ts = Inr (Some i) \<and> ts ! i = nt)"
proof
  assume a: "updateOrAdd nt ts = Inr ts"
  show "\<exists>i. findIndex (labelOf nt) ts = Inr (Some i) \<and> ts ! i = nt"
  proof (cases "findIndex (labelOf nt) ts")
    case (Inl e)
    with a show ?thesis by (simp add: updateOrAdd_def)
  next
    case (Inr r)
    show ?thesis
    proof (cases r)
      case None
      with a Inr show ?thesis by (simp add: updateOrAdd_def)
    next
      case (Some i)
      with a Inr have u: "ts[i := nt] = ts" by (simp add: updateOrAdd_def)
      from Inr Some have "i < length ts" by (simp add: findIndex_Some_iff)
      with u have "ts ! i = nt" by (metis nth_list_update_eq)
      with Inr Some show ?thesis by simp
    qed
  qed
next
  assume "\<exists>i. findIndex (labelOf nt) ts = Inr (Some i) \<and> ts ! i = nt"
  then show "updateOrAdd nt ts = Inr ts"
    by (auto simp: updateOrAdd_def)
qed

lemma updateOrAdd_settles:
  assumes "taskObject nt" and "updateOrAdd nt ts = Inr ts1"
  shows "updateOrAdd nt ts1 = Inr ts1"
proof -
  let ?k = "labelOf nt"
  have own: "labelIs ?k nt = Inr True" using assms(1) by (simp add: taskObject_labelIs)
  show ?thesis
  proof (cases "findIndex ?k ts")
    case (Inl e)
    with assms(2) show ?thesis by (simp add: updateOrAdd_def)
  next
    case (Inr r)
    show ?thesis
    proof (cases r)
      case None
      with assms(2) Inr have ts1: "ts1 = ts @ [nt]" by (simp add: updateOrAdd_def)
      from Inr None have "\<forall>t \<in> set ts. labelIs ?k t = Inr False" by (simp add: findIndex_None_iff)
      then have "findIndex ?k ts1 = Inr (Some (length ts))"
        unfolding findIndex_Some_iff ts1 using own by (simp add: nth_append)
      moreover have "ts1 ! length ts = nt" by (simp add: ts1)
      ultimately show ?thesis using settled_iff [OF assms(1), of ts1] by blast
    next
      case (Some i)
      with assms(2) Inr have ts1: "ts1 = ts[i := nt]" by (simp add: updateOrAdd_def)
      from Inr Some have i: "i < length ts" "\<forall>j<i. labelIs ?k (ts ! j) = Inr False"
        by (simp_all add: findIndex_Some_iff)
      have "findIndex ?k ts1 = Inr (Some i)"
        unfolding findIndex_Some_iff ts1 using own i by simp
      moreover have "ts1 ! i = nt" using i by (simp add: ts1)
      ultimately show ?thesis using settled_iff [OF assms(1), of ts1] by blast
    qed
  qed
qed

lemma updateOrAdd_keeps_settled:
  assumes nt: "taskObject nt" and nt': "taskObject nt'" and ne: "labelOf nt \<noteq> labelOf nt'"
    and s: "updateOrAdd nt ts = Inr ts" and u: "updateOrAdd nt' ts = Inr ts1"
  shows "updateOrAdd nt ts1 = Inr ts1"
proof -
  let ?k = "labelOf nt" and ?k' = "labelOf nt'"
  from s obtain i where i: "findIndex ?k ts = Inr (Some i)" "ts ! i = nt"
    using settled_iff [OF nt] by blast
  then have il: "i < length ts" "\<forall>j<i. labelIs ?k (ts ! j) = Inr False"
    by (simp_all add: findIndex_Some_iff)
  have own: "labelIs ?k nt = Inr True" using nt by (simp add: taskObject_labelIs)
  have other: "labelIs ?k nt' = Inr False" using nt' ne by (simp add: taskObject_labelIs)
  have other': "labelIs ?k' nt = Inr False" using nt ne by (simp add: taskObject_labelIs)
  show ?thesis
  proof (cases "findIndex ?k' ts")
    case (Inl e)
    with u show ?thesis by (simp add: updateOrAdd_def)
  next
    case (Inr r)
    show ?thesis
    proof (cases r)
      case None
      with u Inr have ts1: "ts1 = ts @ [nt']" by (simp add: updateOrAdd_def)
      have "findIndex ?k ts1 = Inr (Some i)"
        unfolding findIndex_Some_iff ts1 using own il i(2) by (simp add: nth_append)
      moreover have "ts1 ! i = nt" using il i(2) by (simp add: ts1 nth_append)
      ultimately show ?thesis using settled_iff [OF nt, of ts1] by blast
    next
      case (Some j)
      with u Inr have ts1: "ts1 = ts[j := nt']" by (simp add: updateOrAdd_def)
      from Inr Some have j: "j < length ts" "labelIs ?k' (ts ! j) = Inr True"
        by (simp_all add: findIndex_Some_iff)
      have ji: "j \<noteq> i" using j(2) i(2) other' by auto
      have "\<forall>m<i. labelIs ?k (ts1 ! m) = Inr False"
      proof (intro allI impI)
        fix m assume m: "m < i"
        show "labelIs ?k (ts1 ! m) = Inr False"
        proof (cases "m = j")
          case True
          then show ?thesis using j(1) other by (simp add: ts1)
        next
          case False
          then show ?thesis using il(2) m by (simp add: ts1)
        qed
      qed
      moreover have "ts1 ! i = nt" using ji i(2) by (simp add: ts1)
      ultimately have "findIndex ?k ts1 = Inr (Some i)"
        unfolding findIndex_Some_iff using il(1) own by (simp add: ts1)
      with \<open>ts1 ! i = nt\<close> show ?thesis using settled_iff [OF nt, of ts1] by blast
    qed
  qed
qed

lemma forEachTask_keeps_settled:
  assumes "taskObject nt" and "\<forall>x \<in> set nts. taskObject x" and "labelOf nt \<notin> labelOf ` set nts"
    and "updateOrAdd nt ts = Inr ts" and "forEachTask nts ts = Inr ts'"
  shows "updateOrAdd nt ts' = Inr ts'"
  using assms
proof (induction nts arbitrary: ts)
  case Nil
  then show ?case by simp
next
  case (Cons x nts)
  from Cons.prems(5) obtain ts1 where 1: "updateOrAdd x ts = Inr ts1" "forEachTask nts ts1 = Inr ts'"
    by (auto split: sum.splits)
  have "updateOrAdd nt ts1 = Inr ts1"
    using updateOrAdd_keeps_settled [OF Cons.prems(1) _ _ Cons.prems(4) 1(1)] Cons.prems(2,3) by auto
  then show ?case
    using Cons.IH [of ts1] Cons.prems(1,2,3) 1(2) by auto
qed

lemma forEachTask_settles:
  assumes "\<forall>x \<in> set nts. taskObject x" and "distinct (map labelOf nts)"
    and "forEachTask nts ts = Inr ts'"
  shows "\<forall>nt \<in> set nts. updateOrAdd nt ts' = Inr ts'"
  using assms
proof (induction nts arbitrary: ts)
  case Nil
  then show ?case by simp
next
  case (Cons x nts)
  from Cons.prems(3) obtain ts1 where 1: "updateOrAdd x ts = Inr ts1" "forEachTask nts ts1 = Inr ts'"
    by (auto split: sum.splits)
  have x: "taskObject x" using Cons.prems(1) by simp
  have "updateOrAdd x ts1 = Inr ts1" by (rule updateOrAdd_settles [OF x 1(1)])
  then have "updateOrAdd x ts' = Inr ts'"
    using forEachTask_keeps_settled [OF x _ _ _ 1(2)] Cons.prems(1,2) by auto
  moreover have "\<forall>nt \<in> set nts. updateOrAdd nt ts' = Inr ts'"
    using Cons.IH [OF _ _ 1(2)] Cons.prems(1,2) by auto
  ultimately show ?case by simp
qed

lemma forEachTask_all_settled:
  "\<forall>nt \<in> set nts. updateOrAdd nt ts = Inr ts \<Longrightarrow> forEachTask nts ts = Inr ts"
  by (induction nts) auto

lemma forEachTask_idempotent:
  assumes "\<forall>x \<in> set nts. taskObject x" and "distinct (map labelOf nts)"
    and "forEachTask nts ts = Inr ts'"
  shows "forEachTask nts ts' = Inr ts'"
  using forEachTask_all_settled [OF forEachTask_settles [OF assms]] .

lemma newTasks_labels: "map labelOf (newTasks h p) = requiredLabels"
  by (simp add: newTasks_def requiredLabels_def Let_def)

lemma newTasks_taskObject: "\<forall>nt \<in> set (newTasks h p). taskObject nt"
  by (simp add: newTasks_def Let_def)

lemma requiredLabels_distinct: "distinct requiredLabels"
  by (simp add: requiredLabels_def TASK_GENERATE_def TASK_UHT_def TASK_COMPOUND_def)

lemma forEachTask_upsert:
  "forEachTask nts ts = Inr r \<Longrightarrow> r = fold (\<lambda>nt. upsert (labelOf nt) nt) nts ts"
proof (induction nts arbitrary: ts)
  case Nil
  then show ?case by simp
next
  case (Cons nt nts)
  from Cons.prems obtain ts1 where 1: "updateOrAdd nt ts = Inr ts1" "forEachTask nts ts1 = Inr r"
    by (auto split: sum.splits)
  show ?case
    using Cons.IH [OF 1(2)] updateOrAdd_upsert [OF 1(1)] by simp
qed

lemma forEachTask_total:
  assumes "\<forall>nt \<in> set nts. taskObject nt" and "JNull \<notin> set ts"
  shows "forEachTask nts ts = Inr (fold (\<lambda>nt. upsert (labelOf nt) nt) nts ts)"
  using assms
proof (induction nts arbitrary: ts)
  case Nil
  then show ?case by simp
next
  case (Cons nt nts)
  have 1: "updateOrAdd nt ts = Inr (upsert (labelOf nt) nt ts)"
    using Cons.prems(2) by (rule updateOrAdd_total)
  have "nt \<noteq> JNull" using Cons.prems(1) by auto
  then have 2: "JNull \<notin> set (upsert (labelOf nt) nt ts)"
    using Cons.prems(2) by (rule upsert_nonnull)
  show ?case
    using Cons.IH [OF _ 2] Cons.prems(1) 1 by simp
qed

lemma fold_upsert_filter_other:
  assumes "\<forall>nt \<in> set nts. taskObject nt" and "l \<notin> labelOf ` set nts"
  shows "filter (hasLabel l) (fold (\<lambda>nt. upsert (labelOf nt) nt) nts ts) = filter (hasLabel l) ts"
  using assms
proof (induction nts arbitrary: ts)
  case Nil
  then show ?case by simp
next
  case (Cons nt nts)
  have "filter (hasLabel l) (upsert (labelOf nt) nt ts) = filter (hasLabel l) ts"
    using Cons.prems by (intro upsert_filter_other) auto
  then show ?case
    using Cons.IH [of "upsert (labelOf nt) nt ts"] Cons.prems by simp
qed

lemma fold_upsert_count_own:
  assumes "\<forall>nt \<in> set nts. taskObject nt" and "distinct (map labelOf nts)"
    and "l \<in> labelOf ` set nts" and "length (filter (hasLabel l) ts) \<le> 1"
  shows "length (filter (hasLabel l) (fold (\<lambda>nt. upsert (labelOf nt) nt) nts ts)) = 1"
  using assms
proof (induction nts arbitrary: ts)
  case Nil
  then show ?case by simp
next
  case (Cons nt nts)
  let ?ts1 = "upsert (labelOf nt) nt ts"
  have nt: "taskObject nt" using Cons.prems(1) by simp
  show ?case
  proof (cases "l = labelOf nt")
    case True
    have "length (filter (hasLabel l) ?ts1) = 1"
    proof (cases "\<exists>t \<in> set ts. hasLabel l t")
      case ex: True
      then have "filter (hasLabel l) ts \<noteq> []" by (simp add: filter_empty_conv)
      then have "length (filter (hasLabel l) ts) = 1"
        using Cons.prems(4) by (cases "filter (hasLabel l) ts") auto
      then show ?thesis
        using upsert_count_own [OF nt, of ts] ex True by simp
    next
      case False
      then show ?thesis
        using upsert_count_own [OF nt, of ts] True by simp
    qed
    moreover have "l \<notin> labelOf ` set nts" using Cons.prems(2) True by auto
    ultimately show ?thesis
      using fold_upsert_filter_other [of nts l ?ts1] Cons.prems(1) by simp
  next
    case False
    then have "filter (hasLabel l) ?ts1 = filter (hasLabel l) ts"
      using upsert_filter_other [OF nt] by simp
    then show ?thesis
      using Cons.IH [of ?ts1] Cons.prems False by auto
  qed
qed

lemma upsert_filter_unrelated:
  assumes "taskObject nt" and "labelOf nt \<in> set ls"
  shows "filter (\<lambda>t. \<not> (\<exists>l \<in> set ls. hasLabel l t)) (upsert (labelOf nt) nt ts) =
         filter (\<lambda>t. \<not> (\<exists>l \<in> set ls. hasLabel l t)) ts"
  using assms by (induction ts) (auto simp: taskObject_hasLabel)

lemma fold_upsert_filter_unrelated:
  assumes "\<forall>nt \<in> set nts. taskObject nt" and "labelOf ` set nts \<subseteq> set ls"
  shows "filter (\<lambda>t. \<not> (\<exists>l \<in> set ls. hasLabel l t)) (fold (\<lambda>nt. upsert (labelOf nt) nt) nts ts) =
         filter (\<lambda>t. \<not> (\<exists>l \<in> set ls. hasLabel l t)) ts"
  using assms
proof (induction nts arbitrary: ts)
  case Nil
  then show ?case by simp
next
  case (Cons nt nts)
  have "filter (\<lambda>t. \<not> (\<exists>l \<in> set ls. hasLabel l t)) (upsert (labelOf nt) nt ts) =
        filter (\<lambda>t. \<not> (\<exists>l \<in> set ls. hasLabel l t)) ts"
    using Cons.prems by (intro upsert_filter_unrelated) auto
  then show ?case
    using Cons.IH [of "upsert (labelOf nt) nt ts"] Cons.prems by simp
qed

subsection \<open>Loading, merging and writing\<close>

lemma readFileSync_exists: "readFileSync w p = Inr c \<Longrightarrow> existsSync w p"
  by (auto simp: readFileSync_def existsSync_def split: option.splits)

lemma loadManifest_read:
  assumes "readFileSync w path = Inr content"
  shows "loadManifest h path w =
     (case json_parse h content of
        None \<Rightarrow> (defaultManifest,
                 emit (ConsoleWarn ''UE Clangd Helper: Failed to parse existing tasks.json, creating new one.'') w)
      | Some parsed \<Rightarrow>
          (case ensureTasks h parsed of
             Inl e \<Rightarrow> (defaultManifest,
                       emit (ConsoleWarn ''UE Clangd Helper: Failed to parse existing tasks.json, creating new one.'') w)
           | Inr tasksJson \<Rightarrow> (tasksJson, w)))"
  using readFileSync_exists [OF assms] by (simp add: loadManifest_def assms Let_def)

lemma mergedTasksJson_dir:
  assumes "existsSync w (path_join h [projectRoot p, ''.vscode''])"
  shows "mergedTasksJson h p w =
     (case loadManifest h (path_join h [path_join h [projectRoot p, ''.vscode''], ''tasks.json'']) w of
        (tasksJson, w2) \<Rightarrow> (mergeTasks (newTasks h p) tasksJson, w2))"
  using assms by (simp add: mergedTasksJson_def Let_def)

lemma injectTasks_write:
  "injectTasks h p w =
     (case mergedTasksJson h p w of
        (Inl e, w2) \<Rightarrow> (Inl e, w2)
      | (Inr tasksJson, w2) \<Rightarrow>
          if canWrite w2 (path_join h [path_join h [projectRoot p, ''.vscode''], ''tasks.json''])
          then (Inr (), w2\<lparr>nodes := (nodes w2)
                  (path_join h [path_join h [projectRoot p, ''.vscode''], ''tasks.json'']
                     \<mapsto> File (json_stringify h (serialized tasksJson)))\<rparr>)
          else (Inl IOError, w2))"
  by (simp add: injectTasks_def Let_def writeFileSync_canWrite split: prod.splits sum.splits)

lemma mergeTasks_default:
  "mergeTasks (newTasks h p) defaultManifest =
     Inr (ObjectManifest [(''version'', JStr ''2.0.0''), (''tasks'', JArr (newTasks h p))])"
proof -
  have "forEachTask (newTasks h p) [] = Inr (fold (\<lambda>nt. upsert (labelOf nt) nt) (newTasks h p) [])"
    using newTasks_taskObject by (intro forEachTask_total) auto
  also have "fold (\<lambda>nt. upsert (labelOf nt) nt) (newTasks h p) [] = newTasks h p"
    by (simp add: newTasks_def Let_def hasLabel_def TASK_GENERATE_def TASK_UHT_def TASK_COMPOUND_def)
  finally show ?thesis
    by (simp add: mergeTasks_def defaultManifest_def)
qed

lemma canWrite_events [simp]: "canWrite (w\<lparr>events := es\<rparr>) p = canWrite w p"
  by (simp add: canWrite_def)

lemma update_filter_other:
  "filter (\<lambda>kv. fst kv \<noteq> k) (AList.update k v al) = filter (\<lambda>kv. fst kv \<noteq> k) al"
  by (induction al) auto

lemma setTasks_serialized:
  "\<exists>kvs'. serialized (setTasks t (ObjectManifest kvs)) = JObj kvs' \<and>
      filter (\<lambda>kv. fst kv \<noteq> ''tasks'') kvs' = filter (\<lambda>kv. fst kv \<noteq> ''tasks'') kvs"
  by (simp add: update_filter_other)

lemma filter_other_map_of:
  assumes "filter (\<lambda>kv. fst kv \<noteq> k) al' = filter (\<lambda>kv. fst kv \<noteq> k) al" and "k' \<noteq> k"
  shows "map_of al' k' = map_of al k'"
proof -
  have "map_of al k' = map_of (filter (\<lambda>kv. fst kv \<noteq> k) al) k'" for al :: "('a \<times> 'b) list"
    using assms(2) by (induction al) auto
  then show ?thesis using assms(1) by metis
qed

lemma ensureTasks_object:
  "\<exists>kvs1. ensureTasks h (JObj kvs) = Inr (ObjectManifest kvs1) \<and>
      filter (\<lambda>kv. fst kv \<noteq> ''tasks'') kvs1 = filter (\<lambda>kv. fst kv \<noteq> ''tasks'') kvs"
  by (simp add: update_filter_other)

lemma mergeTasks_object:
  assumes "mergeTasks nts (ObjectManifest kvs1) = Inr m"
  shows "\<exists>kvs'. m = ObjectManifest kvs' \<and>
      filter (\<lambda>kv. fst kv \<noteq> ''tasks'') kvs' = filter (\<lambda>kv. fst kv \<noteq> ''tasks'') kvs1"
  using assms
  by (auto simp: mergeTasks_def update_filter_other split: option.splits json.splits sum.splits)

lemma loadManifest_world:
  "nodes (snd (loadManifest h path w)) = nodes w \<and>
   read_denied (snd (loadManifest h path w)) = read_denied w \<and>
   write_denied (snd (loadManifest h path w)) = write_denied w"
  by (simp add: loadManifest_def Let_def emit_def split: sum.splits option.splits)

lemma loadManifest_denied:
  "read_denied w path \<Longrightarrow> fst (loadManifest h path w) = defaultManifest"
  by (simp add: loadManifest_def Let_def readFileSync_def split: option.splits node.splits)

lemma remerge:
  assumes to: "\<forall>x \<in> set nts. taskObject x" and dist: "distinct (map labelOf nts)"
    and m: "mergeTasks nts m0 = Inr m"
  shows "\<exists>m1 m2. ensureTasks h (serialized m) = Inr m1 \<and> mergeTasks nts m1 = Inr m2 \<and>
           serialized m2 = serialized m"
proof (cases m0)
  case (ObjectManifest kvs0)
  from m ObjectManifest obtain ts0 ts' where t: "map_of kvs0 ''tasks'' = Some (JArr ts0)"
    "forEachTask nts ts0 = Inr ts'" "m = ObjectManifest (AList.update ''tasks'' (JArr ts') kvs0)"
    by (auto simp: mergeTasks_def split: option.splits json.splits sum.splits)
  let ?kvs' = "AList.update ''tasks'' (JArr ts') kvs0"
  have k: "map_of ?kvs' ''tasks'' = Some (JArr ts')" by (simp add: update_conv')
  have 1: "ensureTasks h (serialized m) = Inr m" by (simp add: t(3) k)
  have "forEachTask nts ts' = Inr ts'" by (rule forEachTask_idempotent [OF to dist t(2)])
  then have 2: "mergeTasks nts m = Inr m"
    by (simp add: mergeTasks_def t(3) k)
  from 1 2 show ?thesis by blast
next
  case (ArrayManifest xs t0)
  from m ArrayManifest obtain ts' where t: "m = ArrayManifest xs (JArr ts')"
    by (auto simp: mergeTasks_def split: option.splits json.splits sum.splits)
  have 1: "ensureTasks h (serialized m) = Inr (ArrayManifest xs (JArr []))" by (simp add: t)
  have "forEachTask nts [] = Inr (fold (\<lambda>nt. upsert (labelOf nt) nt) nts [])"
    using to by (intro forEachTask_total) auto
  then have 2: "mergeTasks nts (ArrayManifest xs (JArr [])) =
                  Inr (ArrayManifest xs (JArr (fold (\<lambda>nt. upsert (labelOf nt) nt) nts [])))"
    by (simp add: mergeTasks_def)
  from 1 2 t show ?thesis by auto
qed

lemma mergedTasksJson_success:
  assumes "fst (mergedTasksJson h p w) = Inr m"
  shows "\<exists>w1. (nodes w1 = nodes w \<or>
                nodes w1 = (nodes w)(path_join h [projectRoot p, ''.vscode''] \<mapsto> Dir [])) \<and>
           read_denied w1 = read_denied w \<and> write_denied w1 = write_denied w \<and>
           existsSync w1 (path_join h [projectRoot p, ''.vscode'']) \<and>
           mergedTasksJson h p w =
             (mergeTasks (newTasks h p)
                (fst (loadManifest h (path_join h [path_join h [projectRoot p, ''.vscode''], ''tasks.json'']) w1)),
              snd (loadManifest h (path_join h [path_join h [projectRoot p, ''.vscode''], ''tasks.json'']) w1))"
proof (cases "existsSync w (path_join h [projectRoot p, ''.vscode''])")
  case True
  then show ?thesis
    by (intro exI [of _ w]) (simp add: mergedTasksJson_dir case_prod_beta)
next
  case False
  let ?dir = "path_join h [projectRoot p, ''.vscode'']"
  from assms False obtain w1 where mk: "mkdirSync ?dir w = Inr w1"
    by (auto simp: mergedTasksJson_def Let_def split: sum.splits)
  from False have n: "?dir = [] \<or> nodes w ?dir = None"
    by (auto simp: existsSync_def node_at_def split: if_splits)
  from mk n have ne: "?dir \<noteq> []" and w1: "w1 = w\<lparr>nodes := (nodes w)(?dir \<mapsto> Dir [])\<rparr>"
    by (auto simp: mkdirSync_def split: if_splits option.splits node.splits)
  have "existsSync w1 ?dir" using ne by (simp add: w1 existsSync_def node_at_def)
  moreover have "mergedTasksJson h p w =
             (mergeTasks (newTasks h p)
                (fst (loadManifest h (path_join h [?dir, ''tasks.json'']) w1)),
              snd (loadManifest h (path_join h [?dir, ''tasks.json'']) w1))"
    using False mk by (simp add: mergedTasksJson_def Let_def case_prod_beta)
  ultimately show ?thesis
    by (intro exI [of _ w1]) (simp add: w1)
qed

subsection \<open>Unrelated tasks\<close>

text \<open>The loop throws only at a \<^verbatim>\<open>null\<close> entry of the task list (the callback reads
  \<^verbatim>\<open>et.label\<close>); then nothing is written, as in the example, and the exception leaves
  \<^verbatim>\<open>injectTasks\<close>.\<close>

lemma forEachTask_throws_on_null:
  assumes "\<forall>nt \<in> set nts. taskObject nt" and "forEachTask nts ts = Inl e"
  shows "JNull \<in> set ts"
proof (rule ccontr)
  assume "JNull \<notin> set ts"
  then have "forEachTask nts ts = Inr (fold (\<lambda>nt. upsert (labelOf nt) nt) nts ts)"
    using assms(1) by (intro forEachTask_total) auto
  with assms(2) show False by simp
qed

lemma injectTasks_null_entry:
  "injectTasks (demoHost\<lparr>json_parse := parseKnown [JObj [(''tasks'', JArr [fooTask, JNull])]]\<rparr>) demoPaths
     (demoWorld\<lparr>nodes := (nodes demoWorld)
        (''/proj/.vscode'' \<mapsto> Dir [''tasks.json''],
         ''/proj/.vscode/tasks.json'' \<mapsto> File (render 0 (JObj [(''tasks'', JArr [fooTask, JNull])])))\<rparr>)
   = (Inl TypeError,
      demoWorld\<lparr>nodes := (nodes demoWorld)
        (''/proj/.vscode'' \<mapsto> Dir [''tasks.json''],
         ''/proj/.vscode/tasks.json'' \<mapsto> File (render 0 (JObj [(''tasks'', JArr [fooTask, JNull])])))\<rparr>)"
  by (simp add: injectTasks_def mergedTasksJson_def loadManifest_def Let_def existsSync_def node_at_def
      readFileSync_def demoHost_def demoWorld_def demoPaths_def parseKnown_def mergeTasks_def
      newTasks_def updateOrAdd_def fooTask_def TASK_GENERATE_def)

text \<open>
  Claim C1. Let the existing manifest parse to an object whose \<^verbatim>\<open>tasks\<close> is an array
  without a \<^verbatim>\<open>null\<close> entry, holding a task \<open>foo\<close> labelled \<^verbatim>\<open>Foo\<close>, and in which
  none of the four required labels occurs twice. Then one injection writes the manifest
  with a task list that still holds \<open>foo\<close>, holds each required label exactly once, and
  holds for every other label, and among the entries with no required label, exactly the
  entries it held before, in their order.
\<close>

theorem injectTasks_keeps_unrelated:
  assumes dir: "existsSync w (path_join h [projectRoot p, ''.vscode''])"
    and rd: "readFileSync w (path_join h [path_join h [projectRoot p, ''.vscode''], ''tasks.json'']) = Inr content"
    and parse: "json_parse h content = Some (JObj kvs)"
    and tasks: "map_of kvs ''tasks'' = Some (JArr tasks)"
    and nonull: "JNull \<notin> set tasks"
    and foo: "foo \<in> set tasks" "hasLabel ''Foo'' foo"
    and nodup: "\<forall>l \<in> set requiredLabels. length (filter (hasLabel l) tasks) \<le> 1"
    and wr: "canWrite w (path_join h [path_join h [projectRoot p, ''.vscode''], ''tasks.json''])"
  shows "\<exists>tasks'.
           injectTasks h p w =
             (Inr (),
              w\<lparr>nodes := (nodes w)
                   (path_join h [path_join h [projectRoot p, ''.vscode''], ''tasks.json''] \<mapsto>
                      File (json_stringify h (JObj (AList.update ''tasks'' (JArr tasks') kvs))))\<rparr>) \<and>
           foo \<in> set tasks' \<and>
           (\<forall>l \<in> set requiredLabels. length (filter (hasLabel l) tasks') = 1) \<and>
           (\<forall>l. l \<notin> set requiredLabels \<longrightarrow> filter (hasLabel l) tasks' = filter (hasLabel l) tasks) \<and>
           filter (\<lambda>t. \<not> (\<exists>l \<in> set requiredLabels. hasLabel l t)) tasks' =
             filter (\<lambda>t. \<not> (\<exists>l \<in> set requiredLabels. hasLabel l t)) tasks"
proof -
  let ?nts = "newTasks h p"
  let ?tasks' = "fold (\<lambda>nt. upsert (labelOf nt) nt) ?nts tasks"
  note to = newTasks_taskObject [of h p]
  have lab: "labelOf ` set ?nts = set requiredLabels"
    using newTasks_labels [of h p] by (metis set_map)
  have dist: "distinct (map labelOf ?nts)"
    using requiredLabels_distinct by (simp add: newTasks_labels)
  have e: "ensureTasks h (JObj kvs) = Inr (ObjectManifest kvs)"
    by (simp add: tasks)
  have f: "forEachTask ?nts tasks = Inr ?tasks'"
    using to nonull by (rule forEachTask_total)
  have m: "mergedTasksJson h p w = (Inr (ObjectManifest (AList.update ''tasks'' (JArr ?tasks') kvs)), w)"
    by (simp add: mergedTasksJson_dir [OF dir] loadManifest_read [OF rd] parse e mergeTasks_def tasks f
          del: ensureTasks.simps)
  have 1: "injectTasks h p w =
             (Inr (),
              w\<lparr>nodes := (nodes w)
                   (path_join h [path_join h [projectRoot p, ''.vscode''], ''tasks.json''] \<mapsto>
                      File (json_stringify h (JObj (AList.update ''tasks'' (JArr ?tasks') kvs))))\<rparr>)"
    using wr by (simp add: injectTasks_write m)
  have 4: "\<forall>l. l \<notin> set requiredLabels \<longrightarrow> filter (hasLabel l) ?tasks' = filter (hasLabel l) tasks"
    using fold_upsert_filter_other [OF to] lab by blast
  have "''Foo'' \<notin> set requiredLabels"
    by (simp add: requiredLabels_def TASK_GENERATE_def TASK_UHT_def TASK_COMPOUND_def)
  then have "filter (hasLabel ''Foo'') ?tasks' = filter (hasLabel ''Foo'') tasks"
    using 4 by blast
  moreover have "foo \<in> set (filter (hasLabel ''Foo'') tasks)"
    using foo by simp
  ultimately have "foo \<in> set (filter (hasLabel ''Foo'') ?tasks')"
    by simp
  then have 2: "foo \<in> set ?tasks'"
    by simp
  have 3: "\<forall>l \<in> set requiredLabels. length (filter (hasLabel l) ?tasks') = 1"
    using fold_upsert_count_own [OF to dist] lab nodup by blast
  have 5: "filter (\<lambda>t. \<not> (\<exists>l \<in> set requiredLabels. hasLabel l t)) ?tasks' =
             filter (\<lambda>t. \<not> (\<exists>l \<in> set requiredLabels. hasLabel l t)) tasks"
    using fold_upsert_filter_unrelated [OF to] lab by blast
  from 1 2 3 4 5 show ?thesis by blast
qed

theorem injectTasks_keeps_unrelated_witness:
  "\<exists>tasks'.
      injectTasks fooHost demoPaths fooWorld =
        (Inr (),
         fooWorld\<lparr>nodes := (nodes fooWorld)
              (path_join fooHost [path_join fooHost [projectRoot demoPaths, ''.vscode''], ''tasks.json''] \<mapsto>
                 File (json_stringify fooHost
                   (JObj (AList.update ''tasks'' (JArr tasks') (topFields fooManifest)))))\<rparr>) \<and>
      fooTask \<in> set tasks' \<and>
      (\<forall>l \<in> set requiredLabels. length (filter (hasLabel l) tasks') = 1) \<and>
      (\<forall>l. l \<notin> set requiredLabels \<longrightarrow>
         filter (hasLabel l) tasks' =
         filter (hasLabel l)
           [fooTask, JObj [(''label'', JStr ''Restart Clangd''), (''command'', JStr ''old'')]]) \<and>
      filter (\<lambda>t. \<not> (\<exists>l \<in> set requiredLabels. hasLabel l t)) tasks' =
        filter (\<lambda>t. \<not> (\<exists>l \<in> set requiredLabels. hasLabel l t))
          [fooTask, JObj [(''label'', JStr ''Restart Clangd''), (''command'', JStr ''old'')]]"
proof -
  have 1: "existsSync fooWorld (path_join fooHost [projectRoot demoPaths, ''.vscode''])"
    by code_simp
  have 2: "readFileSync fooWorld
             (path_join fooHost [path_join fooHost [projectRoot demoPaths, ''.vscode''], ''tasks.json''])
           = Inr (render 0 fooManifest)"
    by code_simp
  have 3: "json_parse fooHost (render 0 fooManifest) = Some (JObj (topFields fooManifest))"
    by code_simp
  have 4: "map_of (topFields fooManifest) ''tasks'' =
             Some (JArr [fooTask, JObj [(''label'', JStr ''Restart Clangd''), (''command'', JStr ''old'')]])"
    by code_simp
  have 5: "JNull \<notin> set [fooTask, JObj [(''label'', JStr ''Restart Clangd''), (''command'', JStr ''old'')]]"
    by code_simp
  have 6: "fooTask \<in> set [fooTask, JObj [(''label'', JStr ''Restart Clangd''), (''command'', JStr ''old'')]]"
    by simp
  have 7: "hasLabel ''Foo'' fooTask"
    by code_simp
  have 8: "\<forall>l \<in> set requiredLabels. length (filter (hasLabel l)
             [fooTask, JObj [(''label'', JStr ''Restart Clangd''), (''command'', JStr ''old'')]]) \<le> 1"
    by code_simp
  have 9: "canWrite fooWorld
             (path_join fooHost [path_join fooHost [projectRoot demoPaths, ''.vscode''], ''tasks.json''])"
    by code_simp
  show ?thesis
    by (rule injectTasks_keeps_unrelated [OF 1 2 3 4 5 6 7 8 9])
qed

subsection \<open>Idempotence\<close>

text \<open>
  Claim C2. Let a first injection reach the write with the value \<open>tasksJson\<close> and
  succeed, and let the host's \<^verbatim>\<open>JSON.parse\<close> read the text that \<^verbatim>\<open>JSON.stringify\<close> gives
  for that value back as that value. Then a second injection with the same paths, run on
  the world the first one left, succeeds too and leaves every file as the first one left
  it: the manifest it writes is byte for byte the manifest that is there.
\<close>

theorem injectTasks_idempotent:
  assumes a1: "fst (mergedTasksJson h p w) = Inr tasksJson"
    and a2: "fst (injectTasks h p w) = Inr ()"
    and rt: "json_parse h (json_stringify h (serialized tasksJson)) = Some (serialized tasksJson)"
  shows "fst (injectTasks h p (snd (injectTasks h p w))) = Inr () \<and>
         nodes (snd (injectTasks h p (snd (injectTasks h p w)))) = nodes (snd (injectTasks h p w))"
proof -
  let ?dir = "path_join h [projectRoot p, ''.vscode'']"
  let ?path = "path_join h [?dir, ''tasks.json'']"
  let ?nts = "newTasks h p"
  let ?s1 = "json_stringify h (serialized tasksJson)"
  note to = newTasks_taskObject [of h p]
  have dist: "distinct (map labelOf ?nts)"
    using requiredLabels_distinct by (simp add: newTasks_labels)
  from mergedTasksJson_success [OF a1] obtain w1 where
    n1: "nodes w1 = nodes w \<or> nodes w1 = (nodes w)(?dir \<mapsto> Dir [])"
    and d1: "read_denied w1 = read_denied w" "write_denied w1 = write_denied w"
    and ex1: "existsSync w1 ?dir"
    and mj: "mergedTasksJson h p w =
               (mergeTasks ?nts (fst (loadManifest h ?path w1)), snd (loadManifest h ?path w1))"
    by blast
  define m0 where "m0 = fst (loadManifest h ?path w1)"
  define w2 where "w2 = snd (loadManifest h ?path w1)"
  have mm: "mergeTasks ?nts m0 = Inr tasksJson"
    using a1 mj by (simp add: m0_def)
  have mj': "mergedTasksJson h p w = (Inr tasksJson, w2)"
    using mj mm by (simp add: m0_def w2_def)
  have w2f: "nodes w2 = nodes w1" "read_denied w2 = read_denied w1" "write_denied w2 = write_denied w1"
    using loadManifest_world [of h ?path w1] by (simp_all add: w2_def)
  have cw: "canWrite w2 ?path"
    using a2 by (simp add: injectTasks_write mj' split: if_splits)
  define w3 where "w3 = w2\<lparr>nodes := (nodes w2)(?path \<mapsto> File ?s1)\<rparr>"
  have r1: "injectTasks h p w = (Inr (), w3)"
    using cw by (simp add: injectTasks_write mj' w3_def)
  have pne: "?path \<noteq> []" using cw by (simp add: canWrite_def)
  have n3: "nodes w3 ?path = Some (File ?s1)" by (simp add: w3_def)
  have d3: "read_denied w3 = read_denied w1" "write_denied w3 = write_denied w1"
    using w2f by (simp_all add: w3_def)
  have ex3: "existsSync w3 ?dir"
    using ex1 w2f(1) by (auto simp: existsSync_def node_at_def w3_def)
  have cw3: "canWrite w3 ?path"
    using cw by (simp add: canWrite_def w3_def)
  have lm: "\<exists>m1 w4 m2. loadManifest h ?path w3 = (m1, w4) \<and> nodes w4 = nodes w3 \<and>
              write_denied w4 = write_denied w3 \<and>
              mergeTasks ?nts m1 = Inr m2 \<and> serialized m2 = serialized tasksJson"
  proof (cases "read_denied w3 ?path")
    case True
    then have "fst (loadManifest h ?path w3) = defaultManifest"
      by (rule loadManifest_denied)
    moreover have "m0 = defaultManifest"
      unfolding m0_def using True d3(1) by (intro loadManifest_denied) simp
    ultimately have "mergeTasks ?nts (fst (loadManifest h ?path w3)) = Inr tasksJson"
      using mm by simp
    then show ?thesis
      using loadManifest_world [of h ?path w3]
      by (metis prod.collapse)
  next
    case False
    have rd: "readFileSync w3 ?path = Inr ?s1"
      using False n3 pne by (simp add: readFileSync_def node_at_def)
    from remerge [OF to dist mm, of h] obtain m1 m2 where
      r: "ensureTasks h (serialized tasksJson) = Inr m1" "mergeTasks ?nts m1 = Inr m2"
         "serialized m2 = serialized tasksJson"
      by blast
    have "loadManifest h ?path w3 = (m1, w3)"
      by (simp add: loadManifest_read [OF rd] rt r(1))
    with r show ?thesis by blast
  qed
  then obtain m1 w4 m2 where l: "loadManifest h ?path w3 = (m1, w4)" "nodes w4 = nodes w3"
    "write_denied w4 = write_denied w3" "mergeTasks ?nts m1 = Inr m2"
    "serialized m2 = serialized tasksJson"
    by blast
  have mj2: "mergedTasksJson h p w3 = (Inr m2, w4)"
    by (simp add: mergedTasksJson_dir [OF ex3] l(1) l(4))
  have cw4: "canWrite w4 ?path"
    using cw3 l(2,3) by (simp add: canWrite_def)
  have r2: "injectTasks h p w3 = (Inr (), w4\<lparr>nodes := (nodes w4)(?path \<mapsto> File ?s1)\<rparr>)"
    using cw4 by (simp add: injectTasks_write mj2 l(5))
  have "(nodes w4)(?path \<mapsto> File ?s1) = nodes w3"
    using l(2) n3 by (simp add: fun_upd_idem)
  then show ?thesis
    by (simp add: r1 r2)
qed

theorem injectTasks_idempotent_witness:
  "fst (injectTasks roundTripHost demoPaths (snd (injectTasks roundTripHost demoPaths fooWorld))) = Inr () \<and>
   nodes (snd (injectTasks roundTripHost demoPaths (snd (injectTasks roundTripHost demoPaths fooWorld))))
     = nodes (snd (injectTasks roundTripHost demoPaths fooWorld))"
proof -
  have a1: "fst (mergedTasksJson roundTripHost demoPaths fooWorld) = Inr (ObjectManifest (topFields fooMerged))"
    by code_simp
  have a2: "fst (injectTasks roundTripHost demoPaths fooWorld) = Inr ()"
    by code_simp
  have rt: "json_parse roundTripHost (json_stringify roundTripHost (serialized (ObjectManifest (topFields fooMerged))))
              = Some (serialized (ObjectManifest (topFields fooMerged)))"
    by code_simp
  show ?thesis
    by (rule injectTasks_idempotent [OF a1 a2 rt])
qed

subsection \<open>A manifest that is no JSON\<close>

text \<open>
  Claim C3. Let the manifest file exist, in its directory, with a content that
  \<^verbatim>\<open>JSON.parse\<close> rejects, and let the file be writable. Then the injection returns
  normally; the only event is the warning on the console (nothing is shown to the user);
  and the file is rewritten with the default manifest, whose only fields are the version
  and the task list. That list has four entries, and they are, in this order, objects
  labelled \<^verbatim>\<open>Generate Clang CompileCommands\<close>, \<^verbatim>\<open>Refresh UHT Generated Headers\<close>,
  \<^verbatim>\<open>Restart Clangd\<close> and \<^verbatim>\<open>Fix Header False Errors\<close>.
\<close>

theorem injectTasks_malformed:
  assumes "existsSync w (path_join h [projectRoot p, ''.vscode''])"
    and "readFileSync w (path_join h [path_join h [projectRoot p, ''.vscode''], ''tasks.json'']) = Inr content"
    and "json_parse h content = None"
    and "canWrite w (path_join h [path_join h [projectRoot p, ''.vscode''], ''tasks.json''])"
  shows "injectTasks h p w =
     (Inr (),
      w\<lparr>nodes := (nodes w)
           (path_join h [path_join h [projectRoot p, ''.vscode''], ''tasks.json''] \<mapsto>
              File (json_stringify h
                (JObj [(''version'', JStr ''2.0.0''), (''tasks'', JArr (newTasks h p))]))),
        events := events w @
           [ConsoleWarn ''UE Clangd Helper: Failed to parse existing tasks.json, creating new one.'']\<rparr>) \<and>
     length (newTasks h p) = 4 \<and>
     list_all2 hasLabel
       [''Generate Clang CompileCommands'', ''Refresh UHT Generated Headers'',
        ''Restart Clangd'', ''Fix Header False Errors'']
       (newTasks h p) \<and>
     map labelOf (newTasks h p) =
       [''Generate Clang CompileCommands'', ''Refresh UHT Generated Headers'',
        ''Restart Clangd'', ''Fix Header False Errors'']"
proof -
  have "mergedTasksJson h p w =
      (Inr (ObjectManifest [(''version'', JStr ''2.0.0''), (''tasks'', JArr (newTasks h p))]),
       emit (ConsoleWarn ''UE Clangd Helper: Failed to parse existing tasks.json, creating new one.'') w)"
    by (simp add: mergedTasksJson_dir [OF assms(1)] loadManifest_read [OF assms(2)] assms(3)
          mergeTasks_default)
  then have written: "injectTasks h p w =
     (Inr (),
      w\<lparr>nodes := (nodes w)
           (path_join h [path_join h [projectRoot p, ''.vscode''], ''tasks.json''] \<mapsto>
              File (json_stringify h
                (JObj [(''version'', JStr ''2.0.0''), (''tasks'', JArr (newTasks h p))]))),
        events := events w @
           [ConsoleWarn ''UE Clangd Helper: Failed to parse existing tasks.json, creating new one.'']\<rparr>)"
    using assms(4) by (simp add: injectTasks_write emit_def)
  have four: "length (newTasks h p) = 4"
    by (simp add: newTasks_def Let_def)
  have labelled: "list_all2 hasLabel
       [''Generate Clang CompileCommands'', ''Refresh UHT Generated Headers'',
        ''Restart Clangd'', ''Fix Header False Errors'']
       (newTasks h p)"
    by (simp add: newTasks_def Let_def hasLabel_def TASK_GENERATE_def TASK_UHT_def TASK_COMPOUND_def)
  have labels: "map labelOf (newTasks h p) =
       [''Generate Clang CompileCommands'', ''Refresh UHT Generated Headers'',
        ''Restart Clangd'', ''Fix Header False Errors'']"
    by (simp add: newTasks_def Let_def TASK_GENERATE_def TASK_UHT_def TASK_COMPOUND_def)
  from written four labelled labels show ?thesis by blast
qed

theorem injectTasks_malformed_witness:
  "(injectTasks demoHost demoPaths brokenWorld =
     (Inr (),
      brokenWorld\<lparr>nodes := (nodes brokenWorld)
           (path_join demoHost [path_join demoHost [projectRoot demoPaths, ''.vscode''], ''tasks.json''] \<mapsto>
              File (json_stringify demoHost
                (JObj [(''version'', JStr ''2.0.0''), (''tasks'', JArr (newTasks demoHost demoPaths))]))),
        events := events brokenWorld @
           [ConsoleWarn ''UE Clangd Helper: Failed to parse existing tasks.json, creating new one.'']\<rparr>) \<and>
    length (newTasks demoHost demoPaths) = 4 \<and>
    list_all2 hasLabel
      [''Generate Clang CompileCommands'', ''Refresh UHT Generated Headers'',
       ''Restart Clangd'', ''Fix Header False Errors'']
      (newTasks demoHost demoPaths) \<and>
    map labelOf (newTasks demoHost demoPaths) =
      [''Generate Clang CompileCommands'', ''Refresh UHT Generated Headers'',
       ''Restart Clangd'', ''Fix Header False Errors'']) \<and>
   nodes (snd (injectTasks demoHost demoPaths brokenWorld)) ''/proj/.vscode/tasks.json'' =
     Some (File (render 0
       (JObj [(''version'', JStr ''2.0.0''),
              (''tasks'', JArr
                [JObj [(''label'', JStr ''Generate Clang CompileCommands''),
                       (''type'', JStr ''shell''),
                       (''command'', JStr ''/ue/Engine/Build/BatchFiles/Build.bat''),
                       (''args'', JArr [JStr ''GameEditor'', JStr ''Win64'', JStr ''Development'',
                                        JStr ''-project=/proj/Game.uproject'',
                                        JStr ''-mode=GenerateClangDatabase'', JStr ''-game'',
                                        JStr ''-rocket'', JStr ''-progress'', JStr ''-UsePrecompiled'']),
                       (''group'', JStr ''build''),
                       (''problemMatcher'', JArr [])],
                 JObj [(''label'', JStr ''Refresh UHT Generated Headers''),
                       (''type'', JStr ''shell''),
                       (''command'', JStr ''/ue/Engine/Build/BatchFiles/Build.bat''),
                       (''args'', JArr [JStr ''-Mode=UnrealHeaderTool'', JStr ''/proj/Game.uproject'',
                                        JStr ''/proj/Intermediate/Build/Win64/GameEditor/Development/GameEditor.uhtmanifest'',
                                        JStr ''-WarningsAsErrors'']),
                       (''problemMatcher'', JStr ''$msCompile''),
                       (''presentation'', JObj [(''reveal'', JStr ''silent''), (''panel'', JStr ''shared'')])],
                 JObj [(''label'', JStr ''Restart Clangd''),
                       (''command'', JStr ''${command:clangd.restart}''),
                       (''problemMatcher'', JArr [])],
                 JObj [(''label'', JStr ''Fix Header False Errors''),
                       (''dependsOn'', JArr [JStr ''Refresh UHT Generated Headers'', JStr ''Restart Clangd'']),
                       (''dependsOrder'', JStr ''sequence''),
                       (''group'', JObj [(''kind'', JStr ''build''), (''isDefault'', JBool False)]),
                       (''problemMatcher'', JArr [])]])])))"
proof -
  have 1: "existsSync brokenWorld (path_join demoHost [projectRoot demoPaths, ''.vscode''])"
    by code_simp
  have 2: "readFileSync brokenWorld
             (path_join demoHost [path_join demoHost [projectRoot demoPaths, ''.vscode''], ''tasks.json''])
           = Inr ''{ version: 2.0.0, tasks: [''"
    by code_simp
  have 3: "json_parse demoHost ''{ version: 2.0.0, tasks: ['' = None"
    by code_simp
  have 4: "canWrite brokenWorld
             (path_join demoHost [path_join demoHost [projectRoot demoPaths, ''.vscode''], ''tasks.json''])"
    by code_simp
  note t = injectTasks_malformed [OF 1 2 3 4]
  have j: "path_join demoHost [path_join demoHost [projectRoot demoPaths, ''.vscode''], ''tasks.json'']
             = ''/proj/.vscode/tasks.json''"
    by code_simp
  have v: "json_stringify demoHost
             (JObj [(''version'', JStr ''2.0.0''), (''tasks'', JArr (newTasks demoHost demoPaths))]) =
           render 0
       (JObj [(''version'', JStr ''2.0.0''),
              (''tasks'', JArr
                [JObj [(''label'', JStr ''Generate Clang CompileCommands''),
                       (''type'', JStr ''shell''),
                       (''command'', JStr ''/ue/Engine/Build/BatchFiles/Build.bat''),
                       (''args'', JArr [JStr ''GameEditor'', JStr ''Win64'', JStr ''Development'',
                                        JStr ''-project=/proj/Game.uproject'',
                                        JStr ''-mode=GenerateClangDatabase'', JStr ''-game'',
                                        JStr ''-rocket'', JStr ''-progress'', JStr ''-UsePrecompiled'']),
                       (''group'', JStr ''build''),
                       (''problemMatcher'', JArr [])],
                 JObj [(''label'', JStr ''Refresh UHT Generated Headers''),
                       (''type'', JStr ''shell''),
                       (''command'', JStr ''/ue/Engine/Build/BatchFiles/Build.bat''),
                       (''args'', JArr [JStr ''-Mode=UnrealHeaderTool'', JStr ''/proj/Game.uproject'',
                                        JStr ''/proj/Intermediate/Build/Win64/GameEditor/Development/GameEditor.uhtmanifest'',
                                        JStr ''-WarningsAsErrors'']),
                       (''problemMatcher'', JStr ''$msCompile''),
                       (''presentation'', JObj [(''reveal'', JStr ''silent''), (''panel'', JStr ''shared'')])],
                 JObj [(''label'', JStr ''Restart Clangd''),
                       (''command'', JStr ''${command:clangd.restart}''),
                       (''problemMatcher'', JArr [])],
                 JObj [(''label'', JStr ''Fix Header False Errors''),
                       (''dependsOn'', JArr [JStr ''Refresh UHT Generated Headers'', JStr ''Restart Clangd'']),
                       (''dependsOrder'', JStr ''sequence''),
                       (''group'', JObj [(''kind'', JStr ''build''), (''isDefault'', JBool False)]),
                       (''problemMatcher'', JArr [])]])])"
    by code_simp
  have "nodes (snd (injectTasks demoHost demoPaths brokenWorld)) ''/proj/.vscode/tasks.json'' =
          Some (File (json_stringify demoHost
             (JObj [(''version'', JStr ''2.0.0''), (''tasks'', JArr (newTasks demoHost demoPaths))])))"
    using t unfolding j by simp
  then show ?thesis
    using t unfolding v by blast
qed

subsection \<open>The other fields of the manifest\<close>

text \<open>
  Claim C10. Let the manifest file exist, in its directory, and parse to an object.
  Then the injection either throws and leaves the world as it was, or rewrites the file
  with an object that has, apart from \<^verbatim>\<open>tasks\<close>, the fields of the parsed object, with their
  values and in their order; so the version of the parsed object, if it has one, is the
  version of the rewritten one.
\<close>

theorem injectTasks_keeps_fields:
  assumes "existsSync w (path_join h [projectRoot p, ''.vscode''])"
    and "readFileSync w (path_join h [path_join h [projectRoot p, ''.vscode''], ''tasks.json'']) = Inr content"
    and "json_parse h content = Some (JObj kvs)"
  shows "(\<exists>e. injectTasks h p w = (Inl e, w)) \<or>
         (\<exists>kvs'. injectTasks h p w =
            (Inr (),
             w\<lparr>nodes := (nodes w)
                  (path_join h [path_join h [projectRoot p, ''.vscode''], ''tasks.json''] \<mapsto>
                     File (json_stringify h (JObj kvs')))\<rparr>) \<and>
            filter (\<lambda>kv. fst kv \<noteq> ''tasks'') kvs' = filter (\<lambda>kv. fst kv \<noteq> ''tasks'') kvs \<and>
            (\<forall>k. k \<noteq> ''tasks'' \<longrightarrow> map_of kvs' k = map_of kvs k) \<and>
            map_of kvs' ''version'' = map_of kvs ''version'')"
proof -
  let ?path = "path_join h [path_join h [projectRoot p, ''.vscode''], ''tasks.json'']"
  obtain kvs1 where e: "ensureTasks h (JObj kvs) = Inr (ObjectManifest kvs1)"
    and f1: "filter (\<lambda>kv. fst kv \<noteq> ''tasks'') kvs1 = filter (\<lambda>kv. fst kv \<noteq> ''tasks'') kvs"
    using ensureTasks_object [of h kvs] by blast
  have m: "mergedTasksJson h p w = (mergeTasks (newTasks h p) (ObjectManifest kvs1), w)"
    by (simp add: mergedTasksJson_dir [OF assms(1)] loadManifest_read [OF assms(2)] assms(3) e
          del: ensureTasks.simps)
  show ?thesis
  proof (cases "mergeTasks (newTasks h p) (ObjectManifest kvs1)")
    case (Inl err)
    then show ?thesis by (simp add: injectTasks_write m)
  next
    case (Inr merged)
    then obtain kvs' where k: "merged = ObjectManifest kvs'"
      and f2: "filter (\<lambda>kv. fst kv \<noteq> ''tasks'') kvs' = filter (\<lambda>kv. fst kv \<noteq> ''tasks'') kvs1"
      using mergeTasks_object by blast
    have f: "filter (\<lambda>kv. fst kv \<noteq> ''tasks'') kvs' = filter (\<lambda>kv. fst kv \<noteq> ''tasks'') kvs"
      using f1 f2 by simp
    show ?thesis
    proof (cases "canWrite w ?path")
      case False
      then show ?thesis by (simp add: injectTasks_write m Inr)
    next
      case True
      have "injectTasks h p w =
            (Inr (), w\<lparr>nodes := (nodes w)(?path \<mapsto> File (json_stringify h (JObj kvs')))\<rparr>)"
        using True by (simp add: injectTasks_write m Inr k)
      moreover have "\<forall>k. k \<noteq> ''tasks'' \<longrightarrow> map_of kvs' k = map_of kvs k"
        using filter_other_map_of [OF f] by blast
      moreover have "map_of kvs' ''version'' = map_of kvs ''version''"
        using filter_other_map_of [OF f, of "''version''"] by simp
      ultimately show ?thesis using f by blast
    qed
  qed
qed

theorem injectTasks_keeps_fields_witness:
  "(\<exists>e. injectTasks fooHost demoPaths fooWorld = (Inl e, fooWorld)) \<or>
   (\<exists>kvs'. injectTasks fooHost demoPaths fooWorld =
      (Inr (),
       fooWorld\<lparr>nodes := (nodes fooWorld)
            (path_join fooHost [path_join fooHost [projectRoot demoPaths, ''.vscode''], ''tasks.json''] \<mapsto>
               File (json_stringify fooHost (JObj kvs')))\<rparr>) \<and>
      filter (\<lambda>kv. fst kv \<noteq> ''tasks'') kvs' =
        filter (\<lambda>kv. fst kv \<noteq> ''tasks'') (topFields fooManifest) \<and>
      (\<forall>k. k \<noteq> ''tasks'' \<longrightarrow> map_of kvs' k = map_of (topFields fooManifest) k) \<and>
      map_of kvs' ''version'' = map_of (topFields fooManifest) ''version'')"
proof -
  have 1: "existsSync fooWorld (path_join fooHost [projectRoot demoPaths, ''.vscode''])"
    by code_simp
  have 2: "readFileSync fooWorld
             (path_join fooHost [path_join fooHost [projectRoot demoPaths, ''.vscode''], ''tasks.json''])
           = Inr (render 0 fooManifest)"
    by code_simp
  have 3: "json_parse fooHost (render 0 fooManifest) = Some (JObj (topFields fooManifest))"
    by code_simp
  show ?thesis
    by (rule injectTasks_keeps_fields [OF 1 2 3])
qed

end
